theory Spec2Isabelle
  imports Main "HOL-Library.Word"
begin

unbundle bit_operations_syntax

section \<open>JavaScript values at the boundary of the program\<close>

text \<open>
  The daemon reads client payloads with the built-in \<^verbatim>\<open>JSON.parse\<close>. A parsed value is a
  \<open>json\<close> tree. The number type is a parameter \<open>'n\<close>: the program only asks whether a value
  is a number, whether it is falsy, and for its \<^verbatim>\<open>toString()\<close>. An object is the list of
  its own properties, one entry per key, as \<^verbatim>\<open>JSON.parse\<close> leaves them.
\<close>

datatype 'n json =
    JNull
  | JBool bool
  | JNumber 'n
  | JString string
  | JArray "'n json list"
  | JObject "(string \<times> 'n json) list"

text \<open>
  The built-ins the program calls, taken as parameters: \<open>JSON_parse\<close> returns \<open>None\<close> where
  JavaScript throws a SyntaxError; \<open>JSON_stringify\<close> prints a value;
  \<open>Number_toString\<close> is \<^verbatim>\<open>n.toString()\<close>; \<open>Number_isZero\<close> tells the falsy numbers.
\<close>

record 'n js_runtime =
  JSON_parse :: "string \<Rightarrow> 'n json option"
  JSON_stringify :: "'n json \<Rightarrow> string"
  Number_toString :: "'n \<Rightarrow> string"
  Number_isZero :: "'n \<Rightarrow> bool"

text \<open>\<^verbatim>\<open>v.k\<close> on a value that is neither null nor undefined: only objects carry the
  properties the program reads (\<^verbatim>\<open>kind\<close>, \<^verbatim>\<open>content\<close>, \<^verbatim>\<open>tags\<close>).\<close>

fun get_prop :: "'n json \<Rightarrow> string \<Rightarrow> 'n json option" where
  "get_prop (JObject kvs) k = map_of kvs k"
| "get_prop _ k = None"

text \<open>\<^verbatim>\<open>v?.k\<close>: undefined on null.\<close>

fun optional_prop :: "'n json \<Rightarrow> string \<Rightarrow> 'n json option" where
  "optional_prop JNull k = None"
| "optional_prop v k = get_prop v k"

text \<open>JavaScript truthiness of a parsed value.\<close>

fun truthy :: "'n js_runtime \<Rightarrow> 'n json \<Rightarrow> bool" where
  "truthy rt JNull = False"
| "truthy rt (JBool b) = b"
| "truthy rt (JNumber n) = (\<not> Number_isZero rt n)"
| "truthy rt (JString s) = (s \<noteq> [])"
| "truthy rt (JArray xs) = True"
| "truthy rt (JObject kvs) = True"

text \<open>\<^verbatim>\<open>typeof v === 'number' ? v : undefined\<close> on a possibly undefined value.\<close>

fun as_number :: "'n json option \<Rightarrow> 'n option" where
  "as_number (Some (JNumber n)) = Some n"
| "as_number _ = None"

section \<open>The policy store\<close>

text \<open>
  The Prisma tables the daemon reads and writes, as lists in insertion order. Dates are
  milliseconds since the epoch; a nullable column is an \<open>option\<close>.
\<close>

record keyUser =
  ku_id :: nat
  ku_keyName :: string
  ku_userPubkey :: string
  ku_description :: "string option"
  ku_createdAt :: int
  ku_revokedAt :: "int option"

record signingCondition =
  sc_keyUserId :: nat
  sc_method :: string
  sc_kind :: "string option"
  sc_allowed :: "bool option"

record policyRule =
  pr_policyId :: nat
  pr_method :: string
  pr_kind :: "string option"

record policy =
  po_id :: nat
  po_name :: string

record token =
  tk_id :: nat
  tk_token :: string
  tk_keyName :: string
  tk_clientName :: string
  tk_policyId :: "nat option"
  tk_expiresAt :: "int option"
  tk_redeemedAt :: "int option"
  tk_keyUserId :: "nat option"

record request =
  rq_id :: string
  rq_keyName :: "string option"
  rq_requestId :: string
  rq_remotePubkey :: string
  rq_method :: string
  rq_params :: "string option"
  rq_allowed :: "bool option"
  rq_createdAt :: int
  rq_processedAt :: "int option"

text \<open>Every Prisma call that writes, in the order the program issues them.\<close>

datatype db_write =
    KeyUser_upsert string string
  | KeyUser_update nat
  | SigningCondition_create signingCondition
  | Policy_create policy
  | PolicyRule_create policyRule
  | Token_create token
  | Token_update nat
  | Request_create request
  | Request_update string
  | Request_delete string

record store =
  keyUsers :: "keyUser list"
  signingConditions :: "signingCondition list"
  policies :: "policy list"
  policyRules :: "policyRule list"
  tokens :: "token list"
  requests :: "request list"
  journal :: "db_write list"

text \<open>A thrown \<^verbatim>\<open>Error(message)\<close>.\<close>

datatype error = Error string

text \<open>An autoincrement key: one more than every id in the table.\<close>

definition fresh_id :: "nat list \<Rightarrow> nat" where
  "fresh_id ids = Suc (fold max ids 0)"

text \<open>\<^verbatim>\<open>prisma.keyUser.findUnique({ where: { unique_key_user: { keyName, userPubkey } } })\<close>\<close>

definition findUnique_keyUser :: "store \<Rightarrow> string \<Rightarrow> string \<Rightarrow> keyUser option" where
  "findUnique_keyUser st keyName userPubkey =
     find (\<lambda>u. ku_keyName u = keyName \<and> ku_userPubkey u = userPubkey) (keyUsers st)"

text \<open>\<^verbatim>\<open>prisma.keyUser.upsert({ where: unique_key_user, update: {}, create: {...} })\<close>:
  the row found, or a new row appended; returns the row and the store.\<close>

definition upsert_keyUser ::
  "store \<Rightarrow> int \<Rightarrow> string \<Rightarrow> string \<Rightarrow> string option \<Rightarrow> keyUser \<times> store" where
  "upsert_keyUser st now keyName userPubkey description =
     (case findUnique_keyUser st keyName userPubkey of
        Some u \<Rightarrow> (u, st\<lparr> journal := journal st @ [KeyUser_upsert keyName userPubkey] \<rparr>)
      | None \<Rightarrow>
          (let u = \<lparr> ku_id = fresh_id (map ku_id (keyUsers st)), ku_keyName = keyName,
                     ku_userPubkey = userPubkey, ku_description = description,
                     ku_createdAt = now, ku_revokedAt = None \<rparr>
           in (u, st\<lparr> keyUsers := keyUsers st @ [u],
                      journal := journal st @ [KeyUser_upsert keyName userPubkey] \<rparr>)))"

text \<open>\<^verbatim>\<open>prisma.signingCondition.create({ data })\<close>\<close>

definition create_signingCondition :: "store \<Rightarrow> signingCondition \<Rightarrow> store" where
  "create_signingCondition st c =
     st\<lparr> signingConditions := signingConditions st @ [c],
        journal := journal st @ [SigningCondition_create c] \<rparr>"

section \<open>The ACL evaluator (daemon/lib/acl.ts)\<close>

text \<open>The payload argument: \<^verbatim>\<open>string | NostrEvent | NDKEvent\<close>. An object payload is
  given by its \<^verbatim>\<open>kind\<close> property (if any) and by what its \<^verbatim>\<open>rawEvent()\<close> returns (if
  it has that function).\<close>

datatype 'n payload =
    PString string
  | PObject "'n json option" "'n json option"

fun extractKind :: "'n js_runtime \<Rightarrow> 'n payload option \<Rightarrow> 'n option" where
  "extractKind rt None = None"
| "extractKind rt (Some (PString s)) =
     (if s = [] then None
      else (case JSON_parse rt s of
              None \<Rightarrow> None
            | Some parsed \<Rightarrow> as_number (optional_prop parsed ''kind'')))"
| "extractKind rt (Some (PObject kind_prop raw)) =
     (case as_number kind_prop of
        Some n \<Rightarrow> Some n
      | None \<Rightarrow>
          (case raw of
             None \<Rightarrow> None
           | Some r \<Rightarrow> if truthy rt r then as_number (get_prop r ''kind'') else None))"

text \<open>\<^verbatim>\<open>SigningConditionQuery\<close>: the \<^verbatim>\<open>kind: { in: [...] }\<close> filter is optional.\<close>

record signingConditionQuery =
  q_method :: string
  q_kind_in :: "string list option"

text \<open>\<^verbatim>\<open>Set.add\<close> followed by \<^verbatim>\<open>Array.from\<close>: insertion order, no duplicates.\<close>

definition set_add :: "string list \<Rightarrow> string \<Rightarrow> string list" where
  "set_add xs x = (if x \<in> set xs then xs else xs @ [x])"

definition buildConditionQuery ::
  "'n js_runtime \<Rightarrow> string \<Rightarrow> 'n payload option \<Rightarrow> signingConditionQuery" where
  "buildConditionQuery rt meth payload =
     (if meth \<noteq> ''sign_event'' then \<lparr> q_method = meth, q_kind_in = None \<rparr>
      else
        (let kinds = (case extractKind rt payload of
                        Some n \<Rightarrow> set_add [''all''] (Number_toString rt n)
                      | None \<Rightarrow> [''all''])
         in \<lparr> q_method = meth, q_kind_in = Some kinds \<rparr>))"

text \<open>A row satisfies the \<^verbatim>\<open>where\<close> clause \<^verbatim>\<open>{ keyUserId, ...query }\<close>: a null kind
  is in no list.\<close>

definition matches_query :: "nat \<Rightarrow> signingConditionQuery \<Rightarrow> signingCondition \<Rightarrow> bool" where
  "matches_query keyUserId q c =
     (sc_keyUserId c = keyUserId \<and> sc_method c = q_method q \<and>
      (case q_kind_in q of
         None \<Rightarrow> True
       | Some ks \<Rightarrow> (case sc_kind c of None \<Rightarrow> False | Some k \<Rightarrow> k \<in> set ks)))"

definition is_explicitDeny :: "nat \<Rightarrow> signingCondition \<Rightarrow> bool" where
  "is_explicitDeny keyUserId c =
     (sc_keyUserId c = keyUserId \<and> sc_method c = ''*'' \<and> sc_allowed c = Some False)"

text \<open>\<open>Some True\<close> is allow, \<open>Some False\<close> is deny, \<open>None\<close> is \<^verbatim>\<open>undefined\<close> (unknown).\<close>

definition isRequestPermitted ::
  "'n js_runtime \<Rightarrow> store \<Rightarrow> string \<Rightarrow> string \<Rightarrow> string \<Rightarrow> 'n payload option \<Rightarrow> bool option" where
  "isRequestPermitted rt st keyName remotePubkey meth payload =
     (case findUnique_keyUser st keyName remotePubkey of
        None \<Rightarrow> None
      | Some keyUser \<Rightarrow>
          (case find (is_explicitDeny (ku_id keyUser)) (signingConditions st) of
             Some explicitDeny \<Rightarrow> Some False
           | None \<Rightarrow>
               (let query = buildConditionQuery rt meth payload in
                case find (matches_query (ku_id keyUser) query) (signingConditions st) of
                  None \<Rightarrow> None
                | Some condition \<Rightarrow>
                    if sc_allowed condition = Some True \<and> ku_revokedAt keyUser \<noteq> None
                    then Some False
                    else sc_allowed condition)))"

text \<open>\<^verbatim>\<open>AllowScope\<close>: \<^verbatim>\<open>{ kind?: number | 'all' }\<close>, and its \<^verbatim>\<open>toString()\<close>.\<close>

datatype 'n scope_kind = KindNumber 'n | KindAll

fun scope_kind_toString :: "'n js_runtime \<Rightarrow> 'n scope_kind \<Rightarrow> string" where
  "scope_kind_toString rt (KindNumber n) = Number_toString rt n"
| "scope_kind_toString rt KindAll = ''all''"

text \<open>\<open>scopeToCondition\<close>: the scope argument is \<open>None\<close> when the scope is absent or has
  no kind. The result holds the method and the kind column to store.\<close>

definition scopeToCondition ::
  "'n js_runtime \<Rightarrow> string \<Rightarrow> 'n scope_kind option \<Rightarrow> string \<times> string option" where
  "scopeToCondition rt meth scope =
     (case scope of
        None \<Rightarrow> (meth, None)
      | Some k \<Rightarrow> (meth, Some (scope_kind_toString rt k)))"

definition permitAllRequests ::
  "'n js_runtime \<Rightarrow> store \<Rightarrow> int \<Rightarrow> string \<Rightarrow> string \<Rightarrow> string \<Rightarrow> string option \<Rightarrow>
   'n scope_kind option \<Rightarrow> store" where
  "permitAllRequests rt st now remotePubkey keyName meth description scope =
     (let (keyUser, st1) = upsert_keyUser st now keyName remotePubkey description;
          (m, k) = scopeToCondition rt meth scope
      in create_signingCondition st1
           \<lparr> sc_keyUserId = ku_id keyUser, sc_method = m, sc_kind = k, sc_allowed = Some True \<rparr>)"

definition blockAllRequests :: "store \<Rightarrow> int \<Rightarrow> string \<Rightarrow> string \<Rightarrow> store" where
  "blockAllRequests st now remotePubkey keyName =
     (let (keyUser, st1) = upsert_keyUser st now keyName remotePubkey None
      in create_signingCondition st1
           \<lparr> sc_keyUserId = ku_id keyUser, sc_method = ''*'', sc_kind = None,
             sc_allowed = Some False \<rparr>)"

section \<open>Token redemption (daemon/backend.ts)\<close>

text \<open>\<^verbatim>\<open>prisma.token.findUnique({ where: { token }, include: { policy: { include: { rules } } } })\<close>:
  the row, its policy (null when the token has none or the policy row is gone) and that
  policy's rules.\<close>

definition findUnique_token :: "store \<Rightarrow> string \<Rightarrow> token option" where
  "findUnique_token st tok = find (\<lambda>t. tk_token t = tok) (tokens st)"

definition token_policy :: "store \<Rightarrow> token \<Rightarrow> policy option" where
  "token_policy st t =
     (case tk_policyId t of
        None \<Rightarrow> None
      | Some pid \<Rightarrow> find (\<lambda>p. po_id p = pid) (policies st))"

definition policy_rules :: "store \<Rightarrow> policy \<Rightarrow> policyRule list" where
  "policy_rules st p = filter (\<lambda>r. pr_policyId r = po_id p) (policyRules st)"

definition fetchValidToken :: "store \<Rightarrow> int \<Rightarrow> string \<Rightarrow> error + (token \<times> policyRule list)" where
  "fetchValidToken st now tok =
     (case findUnique_token st tok of
        None \<Rightarrow> Inl (Error ''Token not found'')
      | Some record \<Rightarrow>
          if tk_redeemedAt record \<noteq> None then Inl (Error ''Token already redeemed'')
          else
            (case token_policy st record of
               None \<Rightarrow> Inl (Error ''Token policy missing'')
             | Some pol \<Rightarrow>
                 if (case tk_expiresAt record of None \<Rightarrow> False | Some e \<Rightarrow> e < now)
                 then Inl (Error ''Token expired'')
                 else Inr (record, policy_rules st pol)))"

text \<open>\<^verbatim>\<open>prisma.token.update({ where: { id }, data })\<close>\<close>

definition update_token :: "store \<Rightarrow> nat \<Rightarrow> (token \<Rightarrow> token) \<Rightarrow> store" where
  "update_token st i f =
     st\<lparr> tokens := map (\<lambda>t. if tk_id t = i then f t else t) (tokens st),
        journal := journal st @ [Token_update i] \<rparr>"

text \<open>The row the loop of \<open>applyToken\<close> inserts for one policy rule.\<close>

definition rule_condition :: "nat \<Rightarrow> policyRule \<Rightarrow> signingCondition" where
  "rule_condition keyUserId rule =
     \<lparr> sc_keyUserId = keyUserId, sc_method = pr_method rule, sc_kind = pr_kind rule,
       sc_allowed = Some True \<rparr>"

definition connect_condition :: "nat \<Rightarrow> signingCondition" where
  "connect_condition keyUserId =
     \<lparr> sc_keyUserId = keyUserId, sc_method = ''connect'', sc_kind = None,
       sc_allowed = Some True \<rparr>"

text \<open>
  Every write of \<open>applyToken\<close> is a statement of its own, awaited in turn, and the function
  opens no transaction and catches nothing: when the database rejects a statement (the
  connection is lost, the disk is full, the file is locked) the \<^verbatim>\<open>await\<close> throws, the
  call ends there, and what the earlier statements wrote stays written. \<open>db_fault\<close> says
  which statement is rejected, counting the writes of one call from 0: \<open>Some k\<close> the
  \<open>k\<close>-th, \<open>None\<close> none. The error thrown is Prisma's and is not in the source;
  \<open>db_error\<close> stands for it. Reads are taken to succeed.
\<close>

type_synonym db_fault = "nat option"

definition db_error :: error where
  "db_error = Error ''database error''"

text \<open>The loop over the policy rules; \<open>k\<close> is the number of the next statement.\<close>

fun create_rule_conditions ::
  "db_fault \<Rightarrow> nat \<Rightarrow> nat \<Rightarrow> policyRule list \<Rightarrow> store \<Rightarrow> (error + unit) \<times> store" where
  "create_rule_conditions fault k keyUserId [] st = (Inr (), st)"
| "create_rule_conditions fault k keyUserId (rule # rules) st =
     (if fault = Some k then (Inl db_error, st)
      else create_rule_conditions fault (Suc k) keyUserId rules
             (create_signingCondition st (rule_condition keyUserId rule)))"

text \<open>\<open>applyToken\<close> returns the outcome (\<open>Inl\<close>: the error thrown) and the store it leaves
  behind. \<open>now\<close> is the clock read by the validity check and by the writes. Statement 0
  is the upsert, statement 1 the \<^verbatim>\<open>connect\<close> row, then one statement per rule, then the
  update of the token.\<close>

definition applyToken ::
  "store \<Rightarrow> db_fault \<Rightarrow> int \<Rightarrow> string \<Rightarrow> string \<Rightarrow> (error + unit) \<times> store" where
  "applyToken st fault now remotePubkey tok =
     (case fetchValidToken st now tok of
        Inl e \<Rightarrow> (Inl e, st)
      | Inr (record, rules) \<Rightarrow>
          if fault = Some 0 then (Inl db_error, st)
          else
            (let (keyUser, st1) =
                   upsert_keyUser st now (tk_keyName record) remotePubkey
                     (Some (tk_clientName record))
             in if fault = Some 1 then (Inl db_error, st1)
                else
                  (let st2 = create_signingCondition st1 (connect_condition (ku_id keyUser))
                   in case create_rule_conditions fault 2 (ku_id keyUser) rules st2 of
                        (Inl e, st3) \<Rightarrow> (Inl e, st3)
                      | (Inr ok, st3) \<Rightarrow>
                          if fault = Some (2 + length rules) then (Inl db_error, st3)
                          else
                            (Inr (),
                             update_token st3 (tk_id record)
                               (\<lambda>t. t\<lparr> tk_redeemedAt := Some now,
                                        tk_keyUserId := Some (ku_id keyUser) \<rparr>)))))"

section \<open>Other writes to the store\<close>

text \<open>\<^verbatim>\<open>prisma.keyUser.update({ where: { id }, data })\<close>: Prisma throws when no row has the
  id, and then nothing is written. The message of that error belongs to Prisma and is not in
  the source; the text used here stands for it, and no theorem depends on it.\<close>

definition update_keyUser :: "store \<Rightarrow> nat \<Rightarrow> (keyUser \<Rightarrow> keyUser) \<Rightarrow> error + store" where
  "update_keyUser st i f =
     (if \<exists>u \<in> set (keyUsers st). ku_id u = i
      then Inr (st\<lparr> keyUsers := map (\<lambda>u. if ku_id u = i then f u else u) (keyUsers st),
                   journal := journal st @ [KeyUser_update i] \<rparr>)
      else Inl (Error ''Record to update not found''))"

text \<open>The store part of the \<^verbatim>\<open>revoke_user\<close> command and of \<^verbatim>\<open>POST /apps/:id/revoke\<close>.\<close>

definition revokeUser :: "store \<Rightarrow> int \<Rightarrow> nat \<Rightarrow> error + store" where
  "revokeUser st now i = update_keyUser st i (\<lambda>u. u\<lparr> ku_revokedAt := Some now \<rparr>)"

text \<open>The store part of \<^verbatim>\<open>PATCH /apps/:id\<close>.\<close>

definition patchApp :: "store \<Rightarrow> nat \<Rightarrow> string \<Rightarrow> error + store" where
  "patchApp st i description = update_keyUser st i (\<lambda>u. u\<lparr> ku_description := Some description \<rparr>)"

text \<open>The store part of the \<^verbatim>\<open>rename_key_user\<close> command: the first row with the pubkey.\<close>

definition renameKeyUser :: "store \<Rightarrow> string \<Rightarrow> string \<Rightarrow> error + store" where
  "renameKeyUser st pubkey description =
     (if pubkey = [] \<or> description = [] then Inl (Error ''Missing parameters for rename_key_user'')
      else
        (case find (\<lambda>u. ku_userPubkey u = pubkey) (keyUsers st) of
           None \<Rightarrow> Inl (Error ''Key user not found'')
         | Some userRecord \<Rightarrow>
             update_keyUser st (ku_id userRecord) (\<lambda>u. u\<lparr> ku_description := Some description \<rparr>)))"

text \<open>The store part of \<^verbatim>\<open>create_new_policy\<close>: the policy row, then one row per rule.\<close>

definition create_policyRule :: "store \<Rightarrow> policyRule \<Rightarrow> store" where
  "create_policyRule st r =
     st\<lparr> policyRules := policyRules st @ [r], journal := journal st @ [PolicyRule_create r] \<rparr>"

definition createNewPolicy :: "store \<Rightarrow> string \<Rightarrow> (string \<times> string option) list \<Rightarrow> store" where
  "createNewPolicy st name rules =
     (let policyRecord = \<lparr> po_id = fresh_id (map po_id (policies st)), po_name = name \<rparr>;
          st1 = st\<lparr> policies := policies st @ [policyRecord],
                   journal := journal st @ [Policy_create policyRecord] \<rparr>
      in fold (\<lambda>rule s.
                 create_policyRule s
                   \<lparr> pr_policyId = po_id policyRecord, pr_method = fst rule, pr_kind = snd rule \<rparr>)
           rules st1)"

text \<open>The store part of \<^verbatim>\<open>create_new_token\<close>; \<open>tok\<close> is the random token text.\<close>

definition createNewToken ::
  "store \<Rightarrow> string \<Rightarrow> string \<Rightarrow> string \<Rightarrow> nat \<Rightarrow> int option \<Rightarrow> error + store" where
  "createNewToken st tok keyName clientName policyId expiresAt =
     (case find (\<lambda>p. po_id p = policyId) (policies st) of
        None \<Rightarrow> Inl (Error ''Policy not found'')
      | Some pol \<Rightarrow>
          (let t = \<lparr> tk_id = fresh_id (map tk_id (tokens st)), tk_token = tok,
                     tk_keyName = keyName, tk_clientName = clientName,
                     tk_policyId = Some (po_id pol), tk_expiresAt = expiresAt,
                     tk_redeemedAt = None, tk_keyUserId = None \<rparr>
           in Inr (st\<lparr> tokens := tokens st @ [t], journal := journal st @ [Token_create t] \<rparr>)))"

text \<open>The three writes to the Request table: \<^verbatim>\<open>create\<close> (persistRequest),
  \<^verbatim>\<open>update\<close> (the web approval handlers) and \<^verbatim>\<open>delete\<close> (the reaper; its rejection
  is swallowed by \<^verbatim>\<open>.catch(() => {})\<close>).\<close>

definition create_request :: "store \<Rightarrow> request \<Rightarrow> store" where
  "create_request st r =
     st\<lparr> requests := requests st @ [r], journal := journal st @ [Request_create r] \<rparr>"

definition update_request :: "store \<Rightarrow> string \<Rightarrow> (request \<Rightarrow> request) \<Rightarrow> error + store" where
  "update_request st i f =
     (if \<exists>r \<in> set (requests st). rq_id r = i
      then Inr (st\<lparr> requests := map (\<lambda>r. if rq_id r = i then f r else r) (requests st),
                   journal := journal st @ [Request_update i] \<rparr>)
      else Inl (Error ''Record to update not found''))"

definition delete_request :: "store \<Rightarrow> string \<Rightarrow> store" where
  "delete_request st i =
     (if \<exists>r \<in> set (requests st). rq_id r = i
      then st\<lparr> requests := filter (\<lambda>r. rq_id r \<noteq> i) (requests st),
               journal := journal st @ [Request_delete i] \<rparr>
      else st)"

text \<open>A failed operation leaves the store as it was.\<close>

definition or_unchanged :: "store \<Rightarrow> error + store \<Rightarrow> store" where
  "or_unchanged st r = (case r of Inl e \<Rightarrow> st | Inr st' \<Rightarrow> st')"

text \<open>Every operation of the program that writes to these tables.\<close>

datatype 'n store_op =
    Op_permitAllRequests int string string string "string option" "'n scope_kind option"
  | Op_blockAllRequests int string string
  | Op_applyToken db_fault int string string
  | Op_revokeUser int nat
  | Op_patchApp nat string
  | Op_renameKeyUser string string
  | Op_createNewPolicy string "(string \<times> string option) list"
  | Op_createNewToken string string string nat "int option"
  | Op_create_request request
  | Op_update_request string "bool option" "string option" "int option"
  | Op_delete_request string

fun apply_op :: "'n js_runtime \<Rightarrow> store \<Rightarrow> 'n store_op \<Rightarrow> store" where
  "apply_op rt st (Op_permitAllRequests now pk keyName meth description scope) =
     permitAllRequests rt st now pk keyName meth description scope"
| "apply_op rt st (Op_blockAllRequests now pk keyName) = blockAllRequests st now pk keyName"
| "apply_op rt st (Op_applyToken fault now pk tok) = snd (applyToken st fault now pk tok)"
| "apply_op rt st (Op_revokeUser now i) = or_unchanged st (revokeUser st now i)"
| "apply_op rt st (Op_patchApp i description) = or_unchanged st (patchApp st i description)"
| "apply_op rt st (Op_renameKeyUser pk description) =
     or_unchanged st (renameKeyUser st pk description)"
| "apply_op rt st (Op_createNewPolicy name rules) = createNewPolicy st name rules"
| "apply_op rt st (Op_createNewToken tok keyName clientName policyId expiresAt) =
     or_unchanged st (createNewToken st tok keyName clientName policyId expiresAt)"
| "apply_op rt st (Op_create_request r) = create_request st r"
| "apply_op rt st (Op_update_request i allowed params processedAt) =
     or_unchanged st
       (update_request st i
          (\<lambda>r. r\<lparr> rq_allowed := allowed, rq_params := params, rq_processedAt := processedAt \<rparr>))"
| "apply_op rt st (Op_delete_request i) = delete_request st i"

text \<open>The store after a sequence of operations.\<close>

definition run_ops :: "'n js_runtime \<Rightarrow> store \<Rightarrow> 'n store_op list \<Rightarrow> store" where
  "run_ops rt st ops = foldl (apply_op rt) st ops"

section \<open>The admin channel (daemon/admin)\<close>

text \<open>An incoming \<^verbatim>\<open>NDKRpcRequest\<close>; \<open>rpc_pubkey\<close> is \<open>None\<close> when the field is undefined.\<close>

record rpc_request =
  rpc_id :: string
  rpc_pubkey :: "string option"
  rpc_method :: string
  rpc_params :: "string list"
  rpc_event_kind :: "nat option"

text \<open>\<^verbatim>\<open>nip19.decode\<close> of nostr-tools, a parameter: \<open>None\<close> where it throws, else the type
  tag and the data (for an npub, the hex pubkey).\<close>

type_synonym nip19_decode = "string \<Rightarrow> (string \<times> string) option"

fun decodeNpubs :: "nip19_decode \<Rightarrow> string list \<Rightarrow> string list" where
  "decodeNpubs decode [] = []"
| "decodeNpubs decode (npub # rest) =
     (case decode npub of
        None \<Rightarrow> decodeNpubs decode rest
      | Some (ty, data) \<Rightarrow>
          if ty = ''npub'' then data # decodeNpubs decode rest else decodeNpubs decode rest)"

definition validateAdminRequest :: "nip19_decode \<Rightarrow> rpc_request \<Rightarrow> string list \<Rightarrow> bool" where
  "validateAdminRequest decode req allowedNpubs =
     (case rpc_pubkey req of
        None \<Rightarrow> False
      | Some pubkey \<Rightarrow>
          if pubkey = [] then False else pubkey \<in> set (decodeNpubs decode allowedNpubs))"

text \<open>A call of \<^verbatim>\<open>rpc.sendResponse(id, remotePubkey, result, kind, error)\<close>; the kind
  defaults to 24133.\<close>

record rpc_response =
  rs_id :: string
  rs_to :: "string option"
  rs_result :: string
  rs_kind :: nat
  rs_error :: "string option"

definition NostrConnect :: nat where
  "NostrConnect = 24133"

definition NostrConnectAdmin :: nat where
  "NostrConnectAdmin = 24134"

text \<open>What a handler can change: the store, the responses sent so far, the debug log, and
  the pending \<^verbatim>\<open>setTimeout\<close> reapers (the time each fires and the Request row it deletes).\<close>

record world =
  w_store :: store
  w_outbox :: "rpc_response list"
  w_debug :: "string list"
  w_reapers :: "(int \<times> string) list"

definition sendResponse ::
  "world \<Rightarrow> string \<Rightarrow> string option \<Rightarrow> string \<Rightarrow> nat \<Rightarrow> string option \<Rightarrow> world" where
  "sendResponse w i remotePubkey result k err =
     w\<lparr> w_outbox := w_outbox w @
          [\<lparr> rs_id = i, rs_to = remotePubkey, rs_result = result, rs_kind = k, rs_error = err \<rparr>] \<rparr>"

text \<open>
  The surroundings of the admin channel. \<open>ae_integer\<close> is \<^verbatim>\<open>Number(s)\<close> where the result is
  an integer (\<open>None\<close> otherwise, also for a missing parameter). \<open>ae_other\<close> stands for the
  handlers that reach outside the store (key material, the config file, the relays, the
  JSON serialiser): \<^verbatim>\<open>get_keys\<close>, \<^verbatim>\<open>get_key_users\<close>, \<^verbatim>\<open>get_key_tokens\<close>,
  \<^verbatim>\<open>get_policies\<close>, \<^verbatim>\<open>create_new_key\<close>, \<^verbatim>\<open>create_new_policy\<close>,
  \<^verbatim>\<open>create_new_token\<close>, \<^verbatim>\<open>unlock_key\<close> and \<^verbatim>\<open>create_account\<close>.
\<close>

record admin_env =
  ae_npubs :: "string list"
  ae_decode :: nip19_decode
  ae_now :: int
  ae_integer :: "string option \<Rightarrow> nat option"
  ae_other :: "world \<Rightarrow> rpc_request \<Rightarrow> (error + unit) \<times> world"

text \<open>\<^verbatim>\<open>req.params[i]\<close>: undefined past the end.\<close>

definition param :: "rpc_request \<Rightarrow> nat \<Rightarrow> string option" where
  "param req i = (if i < length (rpc_params req) then Some (rpc_params req ! i) else None)"

text \<open>A falsy parameter: undefined or the empty string.\<close>

definition missing :: "string option \<Rightarrow> bool" where
  "missing p = (p = None \<or> p = Some [])"

text \<open>\<open>ping\<close>, \<open>revokeUser\<close> and \<open>renameKeyUser\<close> as commands: an error thrown before or by the
  write leaves the world as it was.\<close>

definition ping_command :: "world \<Rightarrow> rpc_request \<Rightarrow> (error + unit) \<times> world" where
  "ping_command w req =
     (Inr (), sendResponse w (rpc_id req) (rpc_pubkey req) ''ok'' NostrConnectAdmin None)"

definition revokeUser_command ::
  "admin_env \<Rightarrow> world \<Rightarrow> rpc_request \<Rightarrow> (error + unit) \<times> world" where
  "revokeUser_command env w req =
     (case ae_integer env (param req 0) of
        None \<Rightarrow> (Inl (Error ''Invalid key user identifier''), w)
      | Some i \<Rightarrow>
          (case revokeUser (w_store w) (ae_now env) i of
             Inl e \<Rightarrow> (Inl e, w)
           | Inr st \<Rightarrow>
               (Inr (), sendResponse (w\<lparr> w_store := st \<rparr>) (rpc_id req) (rpc_pubkey req)
                          ''[\"ok\"]'' NostrConnectAdmin None)))"

definition renameKeyUser_command :: "world \<Rightarrow> rpc_request \<Rightarrow> (error + unit) \<times> world" where
  "renameKeyUser_command w req =
     (if missing (param req 0) \<or> missing (param req 1)
      then (Inl (Error ''Missing parameters for rename_key_user''), w)
      else
        (case renameKeyUser (w_store w) (the (param req 0)) (the (param req 1)) of
           Inl e \<Rightarrow> (Inl e, w)
         | Inr st \<Rightarrow>
             (Inr (), sendResponse (w\<lparr> w_store := st \<rparr>) (rpc_id req) (rpc_pubkey req)
                        ''[\"ok\"]'' NostrConnectAdmin None)))"

text \<open>The methods the \<^verbatim>\<open>switch\<close> of \<open>handleRpcRequest\<close> knows.\<close>

definition admin_methods :: "string list" where
  "admin_methods =
     [''get_keys'', ''get_key_users'', ''rename_key_user'', ''get_key_tokens'', ''revoke_user'',
      ''create_new_key'', ''create_account'', ''ping'', ''unlock_key'', ''create_new_policy'',
      ''get_policies'', ''create_new_token'']"

text \<open>\<open>AdminInterface.handleRpcRequest\<close>: the allow-list check, then the \<^verbatim>\<open>switch\<close>. The default
  branch answers with the kind of the request's event, or 24134.\<close>

definition handleRpcRequest ::
  "admin_env \<Rightarrow> world \<Rightarrow> rpc_request \<Rightarrow> (error + unit) \<times> world" where
  "handleRpcRequest env w req =
     (if rpc_method req \<noteq> ''create_account'' \<and>
         \<not> validateAdminRequest (ae_decode env) req (ae_npubs env)
      then (Inl (Error ''You are not authorised to perform this action''), w)
      else if rpc_method req = ''rename_key_user'' then renameKeyUser_command w req
      else if rpc_method req = ''revoke_user'' then revokeUser_command env w req
      else if rpc_method req = ''ping'' then ping_command w req
      else if rpc_method req \<in> set admin_methods then ae_other env w req
      else
        (Inr (), sendResponse w (rpc_id req) (rpc_pubkey req)
                   (''[\"error\",\"Unknown method '' @ rpc_method req @ ''\"]'')
                   (case rpc_event_kind req of Some k \<Rightarrow> k | None \<Rightarrow> NostrConnectAdmin)
                   None))"

text \<open>The listener registered by \<open>registerRpcHandlers\<close>: a rejection of \<open>handleRpcRequest\<close>
  goes to \<^verbatim>\<open>debug\<close> and nowhere else.\<close>

definition on_request :: "admin_env \<Rightarrow> world \<Rightarrow> rpc_request \<Rightarrow> world" where
  "on_request env w req =
     (case handleRpcRequest env w req of
        (Inl (Error msg), w') \<Rightarrow>
          w'\<lparr> w_debug := w_debug w' @
                [''Error processing admin request '' @ rpc_method req @ '': '' @ msg] \<rparr>
      | (Inr u, w') \<Rightarrow> w')"

section \<open>The authorization broker (daemon/authorize.ts)\<close>

definition serialiseParam :: "'n js_runtime \<Rightarrow> 'n payload option \<Rightarrow> string option" where
  "serialiseParam rt payload =
     (case payload of
        None \<Rightarrow> None
      | Some (PString s) \<Rightarrow> if s = [] then None else Some s
      | Some (PObject kind_prop raw) \<Rightarrow>
          (case raw of None \<Rightarrow> None | Some r \<Rightarrow> Some (JSON_stringify rt r)))"

text \<open>\<open>persistRequest\<close>: the row is created (\<open>newId\<close> is the id the database gives it, \<open>now\<close>
  its \<^verbatim>\<open>createdAt\<close>) and a reaper is scheduled 60 000 ms later.\<close>

definition reaper_delay :: int where
  "reaper_delay = 60000"

definition persistRequest ::
  "'n js_runtime \<Rightarrow> world \<Rightarrow> string \<Rightarrow> int \<Rightarrow> string option \<Rightarrow> string \<Rightarrow> string \<Rightarrow> string \<Rightarrow>
   'n payload option \<Rightarrow> request \<times> world" where
  "persistRequest rt w newId now keyName requestId remotePubkey meth payload =
     (let record = \<lparr> rq_id = newId, rq_keyName = keyName, rq_requestId = requestId,
                      rq_remotePubkey = remotePubkey, rq_method = meth,
                      rq_params = serialiseParam rt payload, rq_allowed = None,
                      rq_createdAt = now, rq_processedAt = None \<rparr>
      in (record,
          w\<lparr> w_store := create_request (w_store w) record,
             w_reapers := w_reapers w @ [(now + reaper_delay, rq_id record)] \<rparr>))"

text \<open>\<^verbatim>\<open>baseUrl.replace(/\/+$/, '')\<close>\<close>

definition strip_trailing_slashes :: "string \<Rightarrow> string" where
  "strip_trailing_slashes s = rev (dropWhile (\<lambda>c. c = CHR ''/'') (rev s))"

definition buildRequestUrl :: "string \<Rightarrow> string \<Rightarrow> string" where
  "buildRequestUrl baseUrl requestId = strip_trailing_slashes baseUrl @ ''/requests/'' @ requestId"

text \<open>
  The promise returned by \<open>awaitWebDecision\<close>, after the interval callback has run once per
  element of the list; each element is what \<^verbatim>\<open>prisma.request.findUnique\<close> returned at
  that tick. The promise is settled (resolved with a value or rejected with an error),
  or still polled, or abandoned: the interval was cleared and neither \<^verbatim>\<open>resolve\<close> nor
  \<^verbatim>\<open>reject\<close> was called, so it can never settle.
\<close>

datatype promise =
    Resolved "string option"
  | Rejected error
  | Polling
  | Abandoned

fun awaitWebDecision :: "request option list \<Rightarrow> promise" where
  "awaitWebDecision [] = Polling"
| "awaitWebDecision (None # later) = Abandoned"
| "awaitWebDecision (Some record # later) =
     (case rq_allowed record of
        None \<Rightarrow> awaitWebDecision later
      | Some True \<Rightarrow> Resolved (rq_params record)
      | Some False \<Rightarrow> Rejected (Error ''Request denied''))"

text \<open>The interval is 100 ms: the time of the \<open>k\<close>-th tick (from 0) of a poll started at
  \<open>start\<close>, and what \<open>n\<close> ticks find in a database whose state at time \<open>t\<close> is \<open>history t\<close>.\<close>

definition poll_interval :: int where
  "poll_interval = 100"

definition tick_time :: "int \<Rightarrow> nat \<Rightarrow> int" where
  "tick_time start k = start + poll_interval * (int k + 1)"

definition findUnique_request :: "store \<Rightarrow> string \<Rightarrow> request option" where
  "findUnique_request st i = find (\<lambda>r. rq_id r = i) (requests st)"

definition observations :: "(int \<Rightarrow> store) \<Rightarrow> int \<Rightarrow> string \<Rightarrow> nat \<Rightarrow> request option list" where
  "observations history start i n =
     map (\<lambda>k. findUnique_request (history (tick_time start k)) i) [0..<n]"

text \<open>
  \<open>requestAuthorization\<close>. \<open>baseUrl\<close> is what \<open>resolveBaseUrl\<close> returns; \<open>polls\<close> is what the
  ticks of the web path find; \<open>relay\<close> is the answer of \<open>admin.requestPermission\<close> on
  the relay path (a promise that always resolves, after 10 s at the latest).
\<close>

definition requestAuthorization ::
  "'n js_runtime \<Rightarrow> world \<Rightarrow> string \<Rightarrow> int \<Rightarrow> string option \<Rightarrow> string option \<Rightarrow> string \<Rightarrow> string \<Rightarrow>
   string \<Rightarrow> 'n payload option \<Rightarrow> request option list \<Rightarrow> bool option \<Rightarrow> promise \<times> world" where
  "requestAuthorization rt w newId now baseUrl keyName remotePubkey requestId meth payload
     polls relay =
     (let (record, w1) = persistRequest rt w newId now keyName requestId remotePubkey meth payload
      in if baseUrl \<noteq> None \<and> baseUrl \<noteq> Some []
         then
           (let url = buildRequestUrl (the baseUrl) (rq_id record);
                w2 = sendResponse w1 requestId (Some remotePubkey) ''auth_url'' NostrConnect
                       (Some url)
            in (awaitWebDecision polls, w2))
         else if relay = Some True then (Resolved None, w1)
         else (Rejected (Error ''Request denied''), w1))"

section \<open>The listing of requests (GET /requests, daemon/run.ts)\<close>

text \<open>A vault entry (\<^verbatim>\<open>StoredKey\<close>) and the vault (\<^verbatim>\<open>config.allKeys\<close>).\<close>

record storedKey =
  sk_iv :: "string option"
  sk_data :: "string option"
  sk_key :: "string option"

text \<open>The preview object: \<^verbatim>\<open>{ kind: event.kind, content: event.content, tags: event.tags || [] }\<close>;
  an undefined property is \<open>None\<close>.\<close>

record 'n eventPreview =
  ep_kind :: "'n json option"
  ep_content :: "'n json option"
  ep_tags :: "'n json"

text \<open>One element of the reply. Dates are kept in milliseconds (the handler prints them in
  ISO form).\<close>

record 'n request_view =
  rv_id :: string
  rv_keyName :: "string option"
  rv_method :: string
  rv_remotePubkey :: string
  rv_params :: "string option"
  rv_eventPreview :: "'n eventPreview option"
  rv_createdAt :: int
  rv_expiresAt :: int
  rv_ttlSeconds :: int
  rv_requiresPassword :: bool
  rv_processedAt :: "int option"

text \<open>\<^verbatim>\<open>Math.round(x / 1000)\<close> for an integer \<open>x\<close>: the nearest integer, a half going up.\<close>

definition round_div_1000 :: "int \<Rightarrow> int" where
  "round_div_1000 x = (x + 500) div 1000"

text \<open>The \<^verbatim>\<open>try\<close> block that fills \<^verbatim>\<open>eventPreview\<close>; \<open>None\<close> is \<^verbatim>\<open>null\<close>.\<close>

definition build_eventPreview :: "'n js_runtime \<Rightarrow> request \<Rightarrow> 'n eventPreview option" where
  "build_eventPreview rt record =
     (if rq_method record = ''sign_event'' \<and> \<not> missing (rq_params record)
      then
        (case JSON_parse rt (the (rq_params record)) of
           None \<Rightarrow> None
         | Some (JArray (event # others)) \<Rightarrow>
             if truthy rt event
             then Some \<lparr> ep_kind = get_prop event ''kind'',
                         ep_content = get_prop event ''content'',
                         ep_tags = (case get_prop event ''tags'' of
                                      None \<Rightarrow> JArray []
                                    | Some t \<Rightarrow> if truthy rt t then t else JArray []) \<rparr>
             else None
         | Some other \<Rightarrow> None)
      else None)"

definition view_request ::
  "'n js_runtime \<Rightarrow> (string \<Rightarrow> storedKey option) \<Rightarrow> int \<Rightarrow> request \<Rightarrow> 'n request_view" where
  "view_request rt allKeys nowMillis record =
     (let entry = (if missing (rq_keyName record) then None else allKeys (the (rq_keyName record)));
          requiresPassword =
            (if missing (rq_keyName record) then False
             else (case entry of None \<Rightarrow> True | Some e \<Rightarrow> missing (sk_key e)));
          expiresAt = rq_createdAt record + 60000
      in \<lparr> rv_id = rq_id record, rv_keyName = rq_keyName record, rv_method = rq_method record,
            rv_remotePubkey = rq_remotePubkey record, rv_params = rq_params record,
            rv_eventPreview = build_eventPreview rt record,
            rv_createdAt = rq_createdAt record, rv_expiresAt = expiresAt,
            rv_ttlSeconds = max 0 (round_div_1000 (expiresAt - nowMillis)),
            rv_requiresPassword = requiresPassword,
            rv_processedAt = rq_processedAt record \<rparr>)"

text \<open>The \<^verbatim>\<open>where\<close> clause chosen by the status filter.\<close>

definition status_filter :: "string \<Rightarrow> int \<Rightarrow> request \<Rightarrow> bool" where
  "status_filter status sixtySecondsAgo r =
     (if status = ''approved'' then rq_allowed r = Some True
      else if status = ''expired'' then rq_allowed r = None \<and> rq_createdAt r < sixtySecondsAgo
      else rq_allowed r = None \<and> rq_createdAt r \<ge> sixtySecondsAgo)"

text \<open>
  The handler. \<open>requestedLimit\<close> and \<open>requestedOffset\<close> are the results of
  \<^verbatim>\<open>Number.parseInt\<close> (\<open>None\<close> for NaN or a missing parameter); \<open>now\<close> and \<open>nowMillis\<close> are
  the two clock reads; rows come newest first (rows of equal age in table order). The
  handler has no error response of its own, so the reply is the list whenever the query
  runs. An offset beyond the database's 64-bit integers makes Prisma reject the query
  (HTTP 500); such a request is outside this definition.
\<close>

definition get_requests ::
  "'n js_runtime \<Rightarrow> (string \<Rightarrow> storedKey option) \<Rightarrow> store \<Rightarrow> int option \<Rightarrow> int option \<Rightarrow>
   string option \<Rightarrow> int \<Rightarrow> int \<Rightarrow> 'n request_view list" where
  "get_requests rt allKeys st requestedLimit requestedOffset status_param now nowMillis =
     (let limit = (case requestedLimit of None \<Rightarrow> 10 | Some l \<Rightarrow> min 50 (max 1 l));
          offset = (case requestedOffset of None \<Rightarrow> 0 | Some off \<Rightarrow> if off \<ge> 0 then off else 0);
          status = (if missing status_param then ''pending'' else the status_param);
          sixtySecondsAgo = now - 60000;
          records = take (nat limit)
                      (drop (nat offset)
                         (sort_key (\<lambda>r. - rq_createdAt r)
                            (filter (status_filter status sixtySecondsAgo) (requests st))))
      in map (view_request rt allKeys nowMillis) records)"

section \<open>The vault (config/keyring.ts)\<close>

text \<open>
  A \<^verbatim>\<open>Buffer\<close> is a list of bytes. A JavaScript string is modelled by its UTF-8 encoding,
  one \<open>char\<close> per byte, so encoding and decoding only change the type. Text that is not
  well formed is outside this model: Node writes U+FFFD for a lone surrogate when it
  encodes and for bytes that are no UTF-8 sequence when it decodes. The secrets the
  callers store are nip19 \<^verbatim>\<open>nsec\<close> texts, which are ASCII.
\<close>

type_synonym byte = "8 word"
type_synonym bytes = "byte list"

definition utf8_encode :: "string \<Rightarrow> bytes" where
  "utf8_encode s = map (\<lambda>c. of_nat (of_char c)) s"

definition utf8_decode :: "bytes \<Rightarrow> string" where
  "utf8_decode bs = map (\<lambda>b. char_of (unat b)) bs"

text \<open>\<^verbatim>\<open>buf.toString('hex')\<close> and \<^verbatim>\<open>Buffer.from(text, 'hex')\<close>; the latter stops at the first
  pair that is not two hex digits.\<close>

definition hex_digit :: "nat \<Rightarrow> char" where
  "hex_digit d = ''0123456789abcdef'' ! d"

definition hex_value :: "char \<Rightarrow> nat option" where
  "hex_value c =
     (let n = of_char c :: nat in
      if 48 \<le> n \<and> n \<le> 57 then Some (n - 48)
      else if 97 \<le> n \<and> n \<le> 102 then Some (n - 87)
      else if 65 \<le> n \<and> n \<le> 70 then Some (n - 55)
      else None)"

fun hex_encode :: "bytes \<Rightarrow> string" where
  "hex_encode [] = []"
| "hex_encode (b # bs) = hex_digit (unat b div 16) # hex_digit (unat b mod 16) # hex_encode bs"

fun hex_decode :: "string \<Rightarrow> bytes" where
  "hex_decode (a # b # rest) =
     (case (hex_value a, hex_value b) of
        (Some x, Some y) \<Rightarrow> of_nat (16 * x + y) # hex_decode rest
      | _ \<Rightarrow> [])"
| "hex_decode _ = []"

text \<open>
  The primitives of Node's \<^verbatim>\<open>crypto\<close> module, taken as parameters: the hash function
  (SHA-256) and AES-256-CBC with PKCS#7 padding under a key and an IV. Decryption
  returns \<open>None\<close> where \<^verbatim>\<open>decipher.final\<close> throws (bad decrypt).
\<close>

record crypto =
  sha256 :: "bytes \<Rightarrow> bytes"
  aes_256_cbc_encrypt :: "bytes \<Rightarrow> bytes \<Rightarrow> bytes \<Rightarrow> bytes"
  aes_256_cbc_decrypt :: "bytes \<Rightarrow> bytes \<Rightarrow> bytes \<Rightarrow> bytes option"

text \<open>
  \<^verbatim>\<open>crypto.pbkdf2Sync(passphrase, salt, 100000, 32, 'sha256')\<close> is PBKDF2 (RFC 8018) with
  HMAC (RFC 2104) over the hash as its pseudorandom function. HMAC brings its key to
  the block size of 64 bytes: a longer key is hashed, a shorter one is padded with
  zero bytes. The 32 bytes asked for are the output length of SHA-256, so the derived
  key is the first PBKDF2 block.
\<close>

definition hmac_key :: "(bytes \<Rightarrow> bytes) \<Rightarrow> bytes \<Rightarrow> bytes" where
  "hmac_key H K =
     (let K' = (if length K > 64 then H K else K) in K' @ replicate (64 - length K') 0)"

definition hmac :: "(bytes \<Rightarrow> bytes) \<Rightarrow> bytes \<Rightarrow> bytes \<Rightarrow> bytes" where
  "hmac H K m =
     H (map (\<lambda>b. b XOR 0x5c) (hmac_key H K) @ H (map (\<lambda>b. b XOR 0x36) (hmac_key H K) @ m))"

definition xor_bytes :: "bytes \<Rightarrow> bytes \<Rightarrow> bytes" where
  "xor_bytes xs ys = map (\<lambda>(x, y). x XOR y) (zip xs ys)"

fun pbkdf2_rounds :: "(bytes \<Rightarrow> bytes) \<Rightarrow> bytes \<Rightarrow> bytes \<Rightarrow> bytes \<Rightarrow> nat \<Rightarrow> bytes" where
  "pbkdf2_rounds H P u acc 0 = acc"
| "pbkdf2_rounds H P u acc (Suc n) =
     (let u' = hmac H P u in pbkdf2_rounds H P u' (xor_bytes acc u') n)"

definition pbkdf2_block1 :: "(bytes \<Rightarrow> bytes) \<Rightarrow> bytes \<Rightarrow> bytes \<Rightarrow> nat \<Rightarrow> bytes" where
  "pbkdf2_block1 H P S c =
     (let u1 = hmac H P (S @ [0, 0, 0, 1]) in pbkdf2_rounds H P u1 u1 (c - 1))"

definition KEY_LENGTH :: nat where
  "KEY_LENGTH = 32"

definition deriveKey :: "crypto \<Rightarrow> string \<Rightarrow> bytes \<Rightarrow> bytes" where
  "deriveKey cr passphrase salt =
     take KEY_LENGTH (pbkdf2_block1 (sha256 cr) (utf8_encode passphrase) salt 100000)"

record encrypted =
  en_iv :: string
  en_data :: string

text \<open>\<open>encryptSecret\<close>; \<open>salt\<close> and \<open>iv\<close> are the two draws of \<^verbatim>\<open>crypto.randomBytes(16)\<close>.\<close>

definition encryptSecret :: "crypto \<Rightarrow> bytes \<Rightarrow> bytes \<Rightarrow> string \<Rightarrow> string \<Rightarrow> encrypted" where
  "encryptSecret cr salt iv secret passphrase =
     (let key = deriveKey cr passphrase salt;
          encrypted = hex_encode (aes_256_cbc_encrypt cr key iv (utf8_encode secret));
          combined = salt @ hex_decode encrypted
      in \<lparr> en_iv = hex_encode iv, en_data = hex_encode combined \<rparr>)"

definition decryptSecret :: "crypto \<Rightarrow> encrypted \<Rightarrow> string \<Rightarrow> error + string" where
  "decryptSecret cr e passphrase =
     (let iv = hex_decode (en_iv e);
          combined = hex_decode (en_data e);
          salt = take 16 combined;
          encryptedData = drop 16 combined;
          key = deriveKey cr passphrase salt
      in case aes_256_cbc_decrypt cr key iv (hex_decode (hex_encode encryptedData)) of
           None \<Rightarrow> Inl (Error ''bad decrypt'')
         | Some decrypted \<Rightarrow> Inr (utf8_decode decrypted))"

section \<open>The heartbeat of the admin channel (daemon/admin)\<close>

text \<open>
  The timers of \<open>startHeartbeat\<close>, with time in milliseconds: the pending \<^verbatim>\<open>setTimeout\<close>
  (the time it fires), the next firing of the \<^verbatim>\<open>setInterval\<close>, the times at which a ping
  was published, and the exit of the process (time and status) once it happened.
\<close>

record heartbeat =
  hb_timeout :: "int option"
  hb_interval :: int
  hb_published :: "int list"
  hb_exit :: "(int \<times> nat) option"

text \<open>\<^verbatim>\<open>schedule\<close>: clear the pending timeout and set a new one 50 s from now.\<close>

definition schedule :: "int \<Rightarrow> heartbeat \<Rightarrow> heartbeat" where
  "schedule now hb = hb\<lparr> hb_timeout := Some (now + 50000) \<rparr>"

text \<open>\<open>startHeartbeat\<close> for a channel that has its signer: the first \<^verbatim>\<open>schedule()\<close> and the
  20 s interval.\<close>

definition startHeartbeat :: "int \<Rightarrow> heartbeat" where
  "startHeartbeat now =
     schedule now \<lparr> hb_timeout = None, hb_interval = now + 20000, hb_published = [], hb_exit = None \<rparr>"

text \<open>The event loop up to time \<open>t\<close>: timers fire in the order of their times. The timeout
  callback logs and calls \<^verbatim>\<open>process.exit(1)\<close>; the interval callback publishes a ping (a
  failed publish is only logged). Nothing runs after the exit.\<close>

definition timeout_due :: "int \<Rightarrow> heartbeat \<Rightarrow> bool" where
  "timeout_due t hb =
     (case hb_timeout hb of None \<Rightarrow> False | Some d \<Rightarrow> d \<le> t \<and> d \<le> hb_interval hb)"

function advance :: "int \<Rightarrow> heartbeat \<Rightarrow> heartbeat" where
  "advance t hb =
     (if hb_exit hb \<noteq> None then hb
      else if timeout_due t hb then hb\<lparr> hb_exit := Some (the (hb_timeout hb), 1) \<rparr>
      else if hb_interval hb \<le> t
      then advance t (hb\<lparr> hb_published := hb_published hb @ [hb_interval hb],
                          hb_interval := hb_interval hb + 20000 \<rparr>)
      else hb)"
  by pat_completeness auto
termination
  by (relation "measure (\<lambda>(t, hb). nat (t - hb_interval hb + 1))") auto

declare advance.simps [simp del]

text \<open>The subscription delivers a self-addressed event at time \<open>t\<close>: the timers due by then
  fire first, then the handler calls \<^verbatim>\<open>schedule()\<close>.\<close>

definition receive :: "int \<Rightarrow> heartbeat \<Rightarrow> heartbeat" where
  "receive t hb =
     (let hb' = advance t hb in if hb_exit hb' \<noteq> None then hb' else schedule t hb')"

text \<open>The heartbeat started at \<open>now\<close>, the events observed at the times \<open>arrivals\<close> (in
  order), and the timers fired up to \<open>horizon\<close>.\<close>

definition run_heartbeat :: "int \<Rightarrow> int list \<Rightarrow> int \<Rightarrow> heartbeat" where
  "run_heartbeat now arrivals horizon =
     advance horizon (fold receive arrivals (startHeartbeat now))"


section \<open>Notions used to state the properties\<close>

text \<open>Pings went out every 20 s since \<open>now\<close>: the \<open>k\<close>-th at \<open>now + k * 20 s\<close>, the next one
  due 20 s after the last.\<close>

definition every_20s :: "int \<Rightarrow> heartbeat \<Rightarrow> bool" where
  "every_20s now hb =
     (hb_published hb = map (\<lambda>k. now + 20000 * int k) [1..<Suc (length (hb_published hb))] \<and>
      hb_interval hb = now + 20000 * (int (length (hb_published hb)) + 1))"

text \<open>The time of the exit, computed from the observations alone: the first deadline \<open>d\<close>
  that no observation precedes, each observation moving the deadline to 50 s after
  it.\<close>

fun exit_time :: "int \<Rightarrow> int list \<Rightarrow> int \<Rightarrow> int option" where
  "exit_time d [] h = (if d \<le> h then Some d else None)"
| "exit_time d (t # ts) h = (if d \<le> t then Some d else exit_time (t + 50000) ts h)"


text \<open>The client \<open>clientPubkey\<close> of key \<open>keyName\<close> is vetoed: its KeyUser row exists and some
  SigningCondition row of that KeyUser has \<^verbatim>\<open>method = '*'\<close> and \<^verbatim>\<open>allowed = false\<close>.\<close>

definition vetoed :: "store \<Rightarrow> string \<Rightarrow> string \<Rightarrow> bool" where
  "vetoed st keyName clientPubkey =
     (case findUnique_keyUser st keyName clientPubkey of
        None \<Rightarrow> False
      | Some u \<Rightarrow> list_ex (is_explicitDeny (ku_id u)) (signingConditions st))"

text \<open>
  The evaluator as the specification words it (section 4.3), for a textual or absent
  \<open>paramPrimary\<close>. Step 3: the event kind is there when \<open>paramPrimary\<close> parses as an object
  with a numeric \<^verbatim>\<open>kind\<close>; the kind set is \<^verbatim>\<open>{"all"}\<close> plus that kind.
\<close>

definition spec_event_kind :: "'n js_runtime \<Rightarrow> string option \<Rightarrow> 'n option" where
  "spec_event_kind rt paramPrimary =
     (case paramPrimary of
        None \<Rightarrow> None
      | Some p \<Rightarrow>
          (case JSON_parse rt p of
             Some (JObject kvs) \<Rightarrow>
               (case map_of kvs ''kind'' of Some (JNumber n) \<Rightarrow> Some n | _ \<Rightarrow> None)
           | _ \<Rightarrow> None))"

definition spec_kind_set :: "'n js_runtime \<Rightarrow> string option \<Rightarrow> string set" where
  "spec_kind_set rt paramPrimary =
     {''all''} \<union> (case spec_event_kind rt paramPrimary of
                     None \<Rightarrow> {}
                   | Some n \<Rightarrow> {Number_toString rt n})"

text \<open>Step 4: the method is the given one and, for \<^verbatim>\<open>sign_event\<close> only, the row's kind is
  in the kind set.\<close>

definition spec_condition_matches ::
  "'n js_runtime \<Rightarrow> string \<Rightarrow> string option \<Rightarrow> signingCondition \<Rightarrow> bool" where
  "spec_condition_matches rt meth paramPrimary c =
     (sc_method c = meth \<and>
      (if meth = ''sign_event''
       then (case sc_kind c of None \<Rightarrow> False | Some k \<Rightarrow> k \<in> spec_kind_set rt paramPrimary)
       else True))"

text \<open>Step 1: the KeyUser rows with the given key name and client pubkey, in table order
  (the pair is a unique key, so there is at most one). Step 2: some SigningCondition row
  of the KeyUser has \<^verbatim>\<open>method = '*'\<close> and \<^verbatim>\<open>allowed = false\<close>.\<close>

definition spec_keyUsers :: "store \<Rightarrow> string \<Rightarrow> string \<Rightarrow> keyUser list" where
  "spec_keyUsers st keyName clientPubkey =
     filter (\<lambda>u. ku_keyName u = keyName \<and> ku_userPubkey u = clientPubkey) (keyUsers st)"

definition spec_wildcard_veto :: "store \<Rightarrow> keyUser \<Rightarrow> bool" where
  "spec_wildcard_veto st u =
     (\<exists>c \<in> set (signingConditions st).
        sc_keyUserId c = ku_id u \<and> sc_method c = ''*'' \<and> sc_allowed c = Some False)"

text \<open>Steps 1 to 5. The match is the first row of the table that qualifies.\<close>

definition spec_evaluate ::
  "'n js_runtime \<Rightarrow> store \<Rightarrow> string \<Rightarrow> string \<Rightarrow> string \<Rightarrow> string option \<Rightarrow> bool option" where
  "spec_evaluate rt st keyName clientPubkey meth paramPrimary =
     (case spec_keyUsers st keyName clientPubkey of
        [] \<Rightarrow> None
      | u # others \<Rightarrow>
          if spec_wildcard_veto st u then Some False
          else
            (case filter (\<lambda>c. sc_keyUserId c = ku_id u \<and>
                               spec_condition_matches rt meth paramPrimary c)
                    (signingConditions st) of
               [] \<Rightarrow> None
             | c # rest \<Rightarrow>
                 if sc_allowed c = Some True \<and> ku_revokedAt u \<noteq> None then Some False
                 else sc_allowed c))"

section \<open>Sample data for the worked instances\<close>

text \<open>Decimal digits of a natural number: what \<^verbatim>\<open>toString()\<close> gives for an event kind.\<close>

definition digit_char :: "nat \<Rightarrow> char" where
  "digit_char d = ''0123456789'' ! d"

fun show_nat :: "nat \<Rightarrow> string" where
  "show_nat n =
     (if n < 10 then [digit_char n] else show_nat (n div 10) @ [digit_char (n mod 10)])"

declare show_nat.simps [simp del]

text \<open>The value of \<^verbatim>\<open>JSON.parse\<close> on the two texts the instances use, and of
  \<^verbatim>\<open>JSON.stringify\<close> on the one value they print; no other text or value occurs in them.\<close>

definition sample_event_text :: string where
  "sample_event_text = ''{\"kind\":1,\"content\":\"hi\",\"tags\":[]}''"

definition sample_event :: "nat json" where
  "sample_event =
     JObject [(''kind'', JNumber 1), (''content'', JString ''hi''), (''tags'', JArray [])]"

definition sample_parse :: "string \<Rightarrow> nat json option" where
  "sample_parse s =
     (if s = sample_event_text then Some sample_event
      else if s = ''['' @ sample_event_text @ '']'' then Some (JArray [sample_event])
      else None)"

definition sample_rt :: "nat js_runtime" where
  "sample_rt =
     \<lparr> JSON_parse = sample_parse,
       JSON_stringify = (\<lambda>v. if v = sample_event then sample_event_text else ''null''),
       Number_toString = show_nat, Number_isZero = (\<lambda>n. n = 0) \<rparr>"

definition empty_store :: store where
  "empty_store =
     \<lparr> keyUsers = [], signingConditions = [], policies = [], policyRules = [], tokens = [],
       requests = [], journal = [] \<rparr>"

text \<open>A store where the client of key \<^verbatim>\<open>main\<close> holds a blanket \<^verbatim>\<open>sign_event\<close> grant, and
  the same store after a veto row was added.\<close>

definition sample_keyUser :: keyUser where
  "sample_keyUser =
     \<lparr> ku_id = 1, ku_keyName = ''main'', ku_userPubkey = ''client'', ku_description = None,
       ku_createdAt = 0, ku_revokedAt = None \<rparr>"

definition sample_grant :: signingCondition where
  "sample_grant =
     \<lparr> sc_keyUserId = 1, sc_method = ''sign_event'', sc_kind = Some ''all'',
       sc_allowed = Some True \<rparr>"

definition sample_veto :: signingCondition where
  "sample_veto =
     \<lparr> sc_keyUserId = 1, sc_method = ''*'', sc_kind = None, sc_allowed = Some False \<rparr>"

definition granted_store :: store where
  "granted_store =
     empty_store\<lparr> keyUsers := [sample_keyUser], signingConditions := [sample_grant] \<rparr>"

definition vetoed_store :: store where
  "vetoed_store =
     empty_store\<lparr> keyUsers := [sample_keyUser], signingConditions := [sample_grant, sample_veto] \<rparr>"

text \<open>A store where the client may sign events of kind 1 only.\<close>

definition kind1_store :: store where
  "kind1_store =
     empty_store\<lparr> keyUsers := [sample_keyUser],
                  signingConditions := [sample_grant\<lparr> sc_kind := Some ''1'' \<rparr>] \<rparr>"

text \<open>
  Token redemption as the specification words it (sections 3 and 4.2), stated on the
  tables alone. A token's policy is missing when the token names none or no Policy row
  has the id it names; the token is expired when it has an expiry before now.
\<close>

definition expired :: "token \<Rightarrow> int \<Rightarrow> bool" where
  "expired t now = (case tk_expiresAt t of None \<Rightarrow> False | Some e \<Rightarrow> e < now)"

definition policy_missing :: "store \<Rightarrow> token \<Rightarrow> bool" where
  "policy_missing st t =
     (case tk_policyId t of
        None \<Rightarrow> True
      | Some i \<Rightarrow> \<forall>p \<in> set (policies st). po_id p \<noteq> i)"

text \<open>The rules of the token's policy: the PolicyRule rows that carry its id.\<close>

definition token_rules :: "store \<Rightarrow> token \<Rightarrow> policyRule list" where
  "token_rules st t = filter (\<lambda>r. Some (pr_policyId r) = tk_policyId t) (policyRules st)"

text \<open>\<open>u\<close> is the KeyUser of the redemption of \<open>t\<close> by \<open>remotePubkey\<close>: it has the token's key
  name and the pubkey; it is a row of the table when the table has a row with that pair,
  and otherwise a new row, with an id no row has, described by the token's client name and
  not revoked.\<close>

definition redeeming_keyUser :: "store \<Rightarrow> token \<Rightarrow> string \<Rightarrow> keyUser \<Rightarrow> bool" where
  "redeeming_keyUser st t remotePubkey u =
     (ku_keyName u = tk_keyName t \<and> ku_userPubkey u = remotePubkey \<and>
      (if \<exists>x \<in> set (keyUsers st). ku_keyName x = tk_keyName t \<and> ku_userPubkey x = remotePubkey
       then u \<in> set (keyUsers st)
       else ku_id u \<notin> set (map ku_id (keyUsers st)) \<and>
            ku_description u = Some (tk_clientName t) \<and> ku_revokedAt u = None))"

text \<open>The SigningCondition rows of a redemption: the \<^verbatim>\<open>connect\<close> row, then one row per
  rule with the rule's method and kind, all of them allowing and all for the KeyUser.\<close>

definition redemption_rows :: "keyUser \<Rightarrow> policyRule list \<Rightarrow> signingCondition list" where
  "redemption_rows u rules =
     \<lparr> sc_keyUserId = ku_id u, sc_method = ''connect'', sc_kind = None, sc_allowed = Some True \<rparr> #
     map (\<lambda>r. \<lparr> sc_keyUserId = ku_id u, sc_method = pr_method r, sc_kind = pr_kind r,
                 sc_allowed = Some True \<rparr>) rules"

text \<open>The statements of a redemption, in order: the upsert, the inserts, the update of the
  token.\<close>

definition redemption_writes ::
  "token \<Rightarrow> string \<Rightarrow> keyUser \<Rightarrow> policyRule list \<Rightarrow> db_write list" where
  "redemption_writes t remotePubkey u rules =
     KeyUser_upsert (tk_keyName t) remotePubkey #
     map SigningCondition_create (redemption_rows u rules) @ [Token_update (tk_id t)]"

text \<open>How many of the \<open>n\<close> statements are carried out: all of them, or those before the
  rejected one.\<close>

definition writes_done :: "db_fault \<Rightarrow> nat \<Rightarrow> nat" where
  "writes_done fault n = (case fault of None \<Rightarrow> n | Some k \<Rightarrow> min k n)"

text \<open>The store after the first \<open>k\<close> statements of the redemption: the KeyUser is there from
  the first statement on, the first \<open>k - 1\<close> rows are appended, and the token is marked
  with \<^verbatim>\<open>redeemedAt\<close> and \<^verbatim>\<open>keyUserId\<close> once all the statements are done.\<close>

definition redemption_store ::
  "store \<Rightarrow> int \<Rightarrow> string \<Rightarrow> token \<Rightarrow> keyUser \<Rightarrow> policyRule list \<Rightarrow> nat \<Rightarrow> store" where
  "redemption_store st now remotePubkey t u rules k =
     st\<lparr> keyUsers := (if k = 0 \<or> u \<in> set (keyUsers st) then keyUsers st
                       else keyUsers st @ [u]),
        signingConditions := signingConditions st @ take (k - 1) (redemption_rows u rules),
        tokens := (if k = length rules + 3
                   then map (\<lambda>x. if tk_id x = tk_id t
                                   then x\<lparr> tk_redeemedAt := Some now,
                                           tk_keyUserId := Some (ku_id u) \<rparr>
                                   else x) (tokens st)
                   else tokens st),
        journal := journal st @ take k (redemption_writes t remotePubkey u rules) \<rparr>"

text \<open>A store with one policy (one rule: \<^verbatim>\<open>sign_event\<close> of kind 1) and one fresh token for
  key \<^verbatim>\<open>main\<close>.\<close>

definition sample_rule :: policyRule where
  "sample_rule = \<lparr> pr_policyId = 1, pr_method = ''sign_event'', pr_kind = Some ''1'' \<rparr>"

definition sample_token :: token where
  "sample_token =
     \<lparr> tk_id = 1, tk_token = ''T'', tk_keyName = ''main'', tk_clientName = ''app'',
       tk_policyId = Some 1, tk_expiresAt = None, tk_redeemedAt = None, tk_keyUserId = None \<rparr>"

definition token_store :: store where
  "token_store =
     empty_store\<lparr> policies := [\<lparr> po_id = 1, po_name = ''signing'' \<rparr>],
                  policyRules := [sample_rule], tokens := [sample_token] \<rparr>"

text \<open>An allow-list entry is a valid npub when \<^verbatim>\<open>nip19.decode\<close> accepts it with type
  \<^verbatim>\<open>npub\<close>.\<close>

definition valid_npub :: "nip19_decode \<Rightarrow> string \<Rightarrow> bool" where
  "valid_npub decode e = (case decode e of None \<Rightarrow> False | Some (ty, d) \<Rightarrow> ty = ''npub'')"

text \<open>A sample decoder: one npub (of the hex key \<^verbatim>\<open>aa01\<close>) and one nsec; anything else,
  a raw hex key included, makes \<^verbatim>\<open>nip19.decode\<close> throw.\<close>

definition sample_decode :: nip19_decode where
  "sample_decode s =
     (if s = ''npub1admin'' then Some (''npub'', ''aa01'')
      else if s = ''nsec1secret'' then Some (''nsec'', ''bb02'')
      else None)"

definition sample_env :: admin_env where
  "sample_env =
     \<lparr> ae_npubs = [''npub1admin''], ae_decode = sample_decode, ae_now = 0,
       ae_integer = (\<lambda>s. if s = Some ''1'' then Some 1 else None),
       ae_other = (\<lambda>w req. (Inr (), w)) \<rparr>"

definition sample_world :: world where
  "sample_world = \<lparr> w_store = granted_store, w_outbox = [], w_debug = [], w_reapers = [] \<rparr>"

definition stranger_request :: rpc_request where
  "stranger_request =
     \<lparr> rpc_id = ''r1'', rpc_pubkey = Some ''cc03'', rpc_method = ''revoke_user'',
       rpc_params = [''1''], rpc_event_kind = Some 24134 \<rparr>"

text \<open>A pending \<^verbatim>\<open>sign_event\<close> request of \<^verbatim>\<open>client\<close> for key \<^verbatim>\<open>main\<close>, created at time 0 with
  id \<^verbatim>\<open>abc\<close>, as \<open>persistRequest\<close> stores it; and a database that holds it, undecided,
  until its reaper deletes it.\<close>

definition sample_request :: request where
  "sample_request =
     \<lparr> rq_id = ''abc'', rq_keyName = Some ''main'', rq_requestId = ''r7'',
       rq_remotePubkey = ''client'', rq_method = ''sign_event'',
       rq_params = Some sample_event_text, rq_allowed = None, rq_createdAt = 0,
       rq_processedAt = None \<rparr>"

definition undecided_history :: "int \<Rightarrow> store" where
  "undecided_history t =
     (if t < rq_createdAt sample_request + reaper_delay
      then granted_store\<lparr> requests := [sample_request] \<rparr>
      else granted_store)"

text \<open>The vault of the instances: \<^verbatim>\<open>main\<close> is stored encrypted.\<close>

definition sample_allKeys :: "string \<Rightarrow> storedKey option" where
  "sample_allKeys name =
     (if name = ''main''
      then Some \<lparr> sk_iv = Some ''00'', sk_data = Some ''00'', sk_key = None \<rparr>
      else None)"

text \<open>
  The law of the cipher that the vault relies on: decryption under the key and IV of the
  encryption gives the plaintext back. And a stand-in for the primitives that obeys it,
  for the worked instances: the ciphertext is the key followed by the plaintext, and
  decryption rejects a ciphertext that does not start with its key.
\<close>

definition cipher_inverts :: "crypto \<Rightarrow> bool" where
  "cipher_inverts cr =
     (\<forall>k iv m. aes_256_cbc_decrypt cr k iv (aes_256_cbc_encrypt cr k iv m) = Some m)"

definition toy_crypto :: crypto where
  "toy_crypto =
     \<lparr> sha256 = (\<lambda>bs. take 32 (bs @ replicate 32 0)),
       aes_256_cbc_encrypt = (\<lambda>k iv m. k @ m),
       aes_256_cbc_decrypt =
         (\<lambda>k iv c. if take (length k) c = k then Some (drop (length k) c) else None) \<rparr>"

definition sample_salt :: bytes where
  "sample_salt = replicate 16 7"

definition sample_iv :: bytes where
  "sample_iv = replicate 16 9"

text \<open>A database in which the administrator approves the sample request 150 ms after its
  creation, rewriting its params.\<close>

definition approved_request :: request where
  "approved_request =
     sample_request\<lparr> rq_allowed := Some True, rq_params := Some ''rewritten'',
                     rq_processedAt := Some 150 \<rparr>"

definition approved_history :: "int \<Rightarrow> store" where
  "approved_history t =
     granted_store\<lparr> requests := [if t < 150 then sample_request else approved_request] \<rparr>"

section \<open>Lists\<close>

lemma find_append:
  "find P (xs @ ys) = (case find P xs of Some x \<Rightarrow> Some x | None \<Rightarrow> find P ys)"
  by (induction xs) auto

lemma find_map_preserved:
  "(\<And>x. P (f x) = P x) \<Longrightarrow> find P (map f xs) = map_option f (find P xs)"
  by (induction xs) auto

section \<open>The wildcard veto\<close>

lemma vetoed_denies:
  "vetoed st keyName pk \<Longrightarrow> isRequestPermitted rt st keyName pk m payload = Some False"
  by (auto simp: vetoed_def isRequestPermitted_def list_ex_iff find_None_iff
           split: option.splits)

lemma vetoed_blockAllRequests: "vetoed (blockAllRequests st now pk keyName) keyName pk"
  by (auto simp: vetoed_def blockAllRequests_def upsert_keyUser_def findUnique_keyUser_def
        create_signingCondition_def is_explicitDeny_def find_append Let_def list_ex_iff
        split: option.splits)

text \<open>No operation removes a KeyUser row, changes its key name, pubkey or id, or removes a
  SigningCondition row: each one keeps a veto in force.\<close>

lemma vetoed_same_tables:
  "vetoed st k p \<Longrightarrow> keyUsers st' = keyUsers st \<Longrightarrow>
   signingConditions st' = signingConditions st \<Longrightarrow> vetoed st' k p"
  by (simp add: vetoed_def findUnique_keyUser_def split: option.splits)

lemma upsert_keeps_veto:
  "vetoed st k p \<Longrightarrow> upsert_keyUser st now k' p' d = (u, st1) \<Longrightarrow> vetoed st1 k p"
  by (auto simp: vetoed_def upsert_keyUser_def findUnique_keyUser_def find_append Let_def
        split: option.splits)

lemma create_condition_keeps_veto:
  "vetoed st k p \<Longrightarrow> vetoed (create_signingCondition st c) k p"
  by (auto simp: vetoed_def create_signingCondition_def findUnique_keyUser_def list_ex_iff
        split: option.splits)

lemma fold_conditions_keep_veto:
  "vetoed st k p \<Longrightarrow> vetoed (fold (\<lambda>r s. create_signingCondition s (g r)) rs st) k p"
  by (induction rs arbitrary: st) (auto intro: create_condition_keeps_veto)

lemma update_token_keeps_veto: "vetoed st k p \<Longrightarrow> vetoed (update_token st i f) k p"
  by (auto simp: vetoed_def update_token_def findUnique_keyUser_def split: option.splits)

lemma update_keyUser_keeps_veto:
  assumes "vetoed st k p" "update_keyUser st i f = Inr st'"
    and "\<And>u. ku_id (f u) = ku_id u \<and> ku_keyName (f u) = ku_keyName u \<and>
             ku_userPubkey (f u) = ku_userPubkey u"
  shows "vetoed st' k p"
proof -
  let ?g = "\<lambda>u. if ku_id u = i then f u else u"
  let ?P = "\<lambda>u. ku_keyName u = k \<and> ku_userPubkey u = p"
  have P: "\<And>u. ?P (?g u) = ?P u" using assms(3) by simp
  have st': "st' = st\<lparr> keyUsers := map ?g (keyUsers st),
                       journal := journal st @ [KeyUser_update i] \<rparr>"
    using assms(2) by (auto simp: update_keyUser_def split: if_splits)
  have "find ?P (map ?g (keyUsers st)) = map_option ?g (find ?P (keyUsers st))"
    by (rule find_map_preserved) (rule P)
  moreover have "\<And>u. ku_id (?g u) = ku_id u" using assms(3) by simp
  ultimately show ?thesis using assms(1) unfolding st'
    by (auto simp: vetoed_def findUnique_keyUser_def split: option.splits)
qed

lemma permit_keeps_veto:
  "vetoed st k p \<Longrightarrow> vetoed (permitAllRequests rt st now pk kn m d sc) k p"
  unfolding permitAllRequests_def
  by (auto simp: Let_def split: prod.splits
           intro!: create_condition_keeps_veto elim: upsert_keeps_veto)

lemma block_keeps_veto:
  "vetoed st k p \<Longrightarrow> vetoed (blockAllRequests st now pk kn) k p"
  unfolding blockAllRequests_def
  by (auto simp: Let_def split: prod.splits
           intro!: create_condition_keeps_veto elim: upsert_keeps_veto)

lemma create_rule_conditions_keeps_veto:
  "vetoed st k p \<Longrightarrow> vetoed (snd (create_rule_conditions fault n i rules st)) k p"
  by (induction rules arbitrary: n st) (auto intro: create_condition_keeps_veto)

lemma applyToken_keeps_veto:
  assumes "vetoed st k p"
  shows "vetoed (snd (applyToken st fault now pk tok)) k p"
proof (cases "fetchValidToken st now tok")
  case (Inl e)
  then show ?thesis using assms by (simp add: applyToken_def)
next
  case (Inr found)
  obtain t rules where found: "found = (t, rules)" by (cases found)
  obtain u st1 where
    up: "upsert_keyUser st now (tk_keyName t) pk (Some (tk_clientName t)) = (u, st1)"
    by (cases "upsert_keyUser st now (tk_keyName t) pk (Some (tk_clientName t))")
  have v1: "vetoed st1 k p" using assms up by (rule upsert_keeps_veto)
  define st2 where "st2 = create_signingCondition st1 (connect_condition (ku_id u))"
  have v2: "vetoed st2 k p" unfolding st2_def using v1 by (rule create_condition_keeps_veto)
  obtain r st3 where crc: "create_rule_conditions fault 2 (ku_id u) rules st2 = (r, st3)"
    by (cases "create_rule_conditions fault 2 (ku_id u) rules st2")
  have v3: "vetoed st3 k p"
    using create_rule_conditions_keeps_veto[OF v2, of fault 2 "ku_id u" rules] crc by simp
  have v4: "\<And>f. vetoed (update_token st3 (tk_id t) f) k p"
    using v3 by (rule update_token_keeps_veto)
  show ?thesis
    using assms v1 v3 v4 crc
    by (simp add: applyToken_def Inr found up st2_def[symmetric] split: sum.splits)
qed

lemma revokeUser_keeps_veto:
  "vetoed st k p \<Longrightarrow> vetoed (or_unchanged st (revokeUser st now i)) k p"
  by (auto simp: or_unchanged_def revokeUser_def split: sum.splits
           elim!: update_keyUser_keeps_veto)

lemma patchApp_keeps_veto: "vetoed st k p \<Longrightarrow> vetoed (or_unchanged st (patchApp st i d)) k p"
  by (auto simp: or_unchanged_def patchApp_def split: sum.splits
           elim!: update_keyUser_keeps_veto)

lemma renameKeyUser_keeps_veto:
  "vetoed st k p \<Longrightarrow> vetoed (or_unchanged st (renameKeyUser st pk d)) k p"
  by (auto simp: or_unchanged_def renameKeyUser_def split: sum.splits option.splits if_splits
           elim!: update_keyUser_keeps_veto)

lemma fold_policyRules_tables:
  "keyUsers (fold (\<lambda>rule s. create_policyRule s (g rule)) rules st) = keyUsers st \<and>
   signingConditions (fold (\<lambda>rule s. create_policyRule s (g rule)) rules st) =
     signingConditions st"
  by (induction rules arbitrary: st) (auto simp: create_policyRule_def)

lemma createNewPolicy_keeps_veto:
  "vetoed st k p \<Longrightarrow> vetoed (createNewPolicy st name rules) k p"
  unfolding createNewPolicy_def Let_def
  by (erule vetoed_same_tables) (simp_all add: fold_policyRules_tables)

lemma createNewToken_keeps_veto:
  "vetoed st k p \<Longrightarrow> vetoed (or_unchanged st (createNewToken st tok kn cn pid e)) k p"
  unfolding or_unchanged_def createNewToken_def Let_def
  by (cases "find (\<lambda>p. po_id p = pid) (policies st)")
     (auto elim: vetoed_same_tables)

lemma request_ops_keep_veto:
  "vetoed st k p \<Longrightarrow> vetoed (create_request st r) k p"
  "vetoed st k p \<Longrightarrow> vetoed (or_unchanged st (update_request st i f)) k p"
  "vetoed st k p \<Longrightarrow> vetoed (delete_request st i) k p"
  by (auto simp: create_request_def update_request_def delete_request_def or_unchanged_def
        split: sum.splits if_splits elim: vetoed_same_tables)

lemma apply_op_keeps_veto: "vetoed st k p \<Longrightarrow> vetoed (apply_op rt st op) k p"
  by (cases op)
     (simp_all add: permit_keeps_veto block_keeps_veto applyToken_keeps_veto
        revokeUser_keeps_veto patchApp_keeps_veto renameKeyUser_keeps_veto
        createNewPolicy_keeps_veto createNewToken_keeps_veto request_ops_keep_veto)

lemma run_ops_keeps_veto: "vetoed st k p \<Longrightarrow> vetoed (run_ops rt st ops) k p"
  unfolding run_ops_def
  by (induction ops arbitrary: st) (auto intro: apply_op_keeps_veto)

text \<open>
  Claim C1. If the KeyUser \<open>(keyName, clientPubkey)\<close> exists (row \<open>u\<close>) and some
  SigningCondition row \<open>c\<close> of that KeyUser has \<^verbatim>\<open>method = '*'\<close> and \<^verbatim>\<open>allowed = false\<close>, then
  \<open>isRequestPermitted\<close> returns deny for every method and every payload, whatever other
  rows the table holds. In particular it returns deny in every store reached from
  the result of \<open>blockAllRequests clientPubkey keyName\<close> by any sequence of the program's
  write operations.
\<close>

theorem veto_precedence:
  "(findUnique_keyUser st keyName clientPubkey = Some u \<and>
    c \<in> set (signingConditions st) \<and> sc_keyUserId c = ku_id u \<and>
    sc_method c = ''*'' \<and> sc_allowed c = Some False
    \<longrightarrow> isRequestPermitted rt st keyName clientPubkey meth payload = Some False)
   \<and> isRequestPermitted rt
        (run_ops rt (blockAllRequests st0 now clientPubkey keyName) ops)
        keyName clientPubkey meth payload = Some False"
proof (intro conjI impI)
  assume "findUnique_keyUser st keyName clientPubkey = Some u \<and>
    c \<in> set (signingConditions st) \<and> sc_keyUserId c = ku_id u \<and>
    sc_method c = ''*'' \<and> sc_allowed c = Some False"
  then have "vetoed st keyName clientPubkey"
    by (auto simp: vetoed_def list_ex_iff is_explicitDeny_def)
  then show "isRequestPermitted rt st keyName clientPubkey meth payload = Some False"
    by (rule vetoed_denies)
next
  have "vetoed (run_ops rt (blockAllRequests st0 now clientPubkey keyName) ops)
          keyName clientPubkey"
    by (rule run_ops_keeps_veto) (rule vetoed_blockAllRequests)
  then show "isRequestPermitted rt
        (run_ops rt (blockAllRequests st0 now clientPubkey keyName) ops)
        keyName clientPubkey meth payload = Some False"
    by (rule vetoed_denies)
qed

text \<open>An instance: the client holds a blanket \<^verbatim>\<open>sign_event\<close> grant and a veto row; a
  \<^verbatim>\<open>sign_event\<close> request for a kind 1 event is denied, and it stays denied after the veto
  written by \<open>blockAllRequests\<close> is followed by a new grant and a rename.\<close>

theorem veto_precedence_witness:
  "findUnique_keyUser vetoed_store ''main'' ''client'' = Some sample_keyUser \<and>
   sample_veto \<in> set (signingConditions vetoed_store) \<and>
   sc_keyUserId sample_veto = ku_id sample_keyUser \<and>
   sc_method sample_veto = ''*'' \<and> sc_allowed sample_veto = Some False \<and>
   isRequestPermitted sample_rt vetoed_store ''main'' ''client'' ''sign_event''
     (Some (PString sample_event_text)) = Some False \<and>
   isRequestPermitted sample_rt
     (run_ops sample_rt (blockAllRequests granted_store 5 ''client'' ''main'')
        [Op_permitAllRequests 6 ''client'' ''main'' ''sign_event'' None (Some KindAll),
         Op_renameKeyUser ''client'' ''app''])
     ''main'' ''client'' ''sign_event'' (Some (PString sample_event_text)) = Some False"
  using veto_precedence [of vetoed_store "''main''" "''client''" sample_keyUser sample_veto
      sample_rt "''sign_event''" "Some (PString sample_event_text)" granted_store 5
      "[Op_permitAllRequests 6 ''client'' ''main'' ''sign_event'' None (Some KindAll),
        Op_renameKeyUser ''client'' ''app'']"]
  by (simp add: vetoed_store_def empty_store_def sample_keyUser_def sample_veto_def
        findUnique_keyUser_def)

section \<open>The ACL evaluator against the specification's algorithm\<close>

lemma extractKind_spec:
  assumes "JSON_parse rt [] = None"
  shows "extractKind rt (map_option PString p) = spec_event_kind rt p"
proof (cases p)
  case None
  then show ?thesis by (simp add: spec_event_kind_def)
next
  case (Some s)
  show ?thesis
  proof (cases "JSON_parse rt s")
    case None
    then show ?thesis using Some by (simp add: spec_event_kind_def)
  next
    case (Some v)
    then have "s \<noteq> []" using assms by auto
    then show ?thesis using Some \<open>p = Some s\<close>
      by (cases v) (auto simp: spec_event_kind_def split: option.splits json.splits)
  qed
qed

lemma matches_query_spec:
  assumes "JSON_parse rt [] = None"
  shows "matches_query i (buildConditionQuery rt meth (map_option PString p)) c =
         (sc_keyUserId c = i \<and> spec_condition_matches rt meth p c)"
  using extractKind_spec[OF assms, of p]
  by (auto simp: matches_query_def buildConditionQuery_def spec_condition_matches_def
        spec_kind_set_def set_add_def Let_def split: option.splits)

lemma find_filter:
  "find P xs = (case filter P xs of [] \<Rightarrow> None | x # rest \<Rightarrow> Some x)"
  by (induction xs) auto

lemma findUnique_keyUser_spec:
  "findUnique_keyUser st keyName clientPubkey =
     (case spec_keyUsers st keyName clientPubkey of [] \<Rightarrow> None | u # others \<Rightarrow> Some u)"
  unfolding findUnique_keyUser_def spec_keyUsers_def by (rule find_filter)

lemma explicitDeny_spec:
  "(find (is_explicitDeny (ku_id u)) (signingConditions st) = None) = (\<not> spec_wildcard_veto st u)"
  by (auto simp: find_None_iff spec_wildcard_veto_def is_explicitDeny_def)

text \<open>
  Claim C2. For every key name, client pubkey, method and textual (or absent)
  \<open>paramPrimary\<close>, \<open>isRequestPermitted\<close> computes what the specification's algorithm
  \<open>spec_evaluate\<close> says: unknown when no KeyUser row has the key name and the client pubkey;
  deny when some SigningCondition row of the KeyUser has \<^verbatim>\<open>method = '*'\<close> and
  \<^verbatim>\<open>allowed = false\<close>; otherwise the first SigningCondition of that KeyUser with the given
  method whose kind, for \<^verbatim>\<open>sign_event\<close> only, lies in \<^verbatim>\<open>{"all"}\<close> plus the kind of the
  event when \<open>paramPrimary\<close> parses as an object with a numeric kind; unknown when there
  is no such row; deny when the row allows but the KeyUser is revoked; otherwise the
  row's \<^verbatim>\<open>allowed\<close>. (\<^verbatim>\<open>JSON.parse\<close> rejects the empty text.) The first step once more,
  on its own: when every KeyUser row differs in key name or in pubkey, the answer is
  unknown.
\<close>

theorem isRequestPermitted_spec:
  assumes "JSON_parse rt [] = None"
  shows "isRequestPermitted rt st keyName clientPubkey meth (map_option PString paramPrimary) =
           spec_evaluate rt st keyName clientPubkey meth paramPrimary
         \<and> ((\<forall>u \<in> set (keyUsers st). ku_keyName u \<noteq> keyName \<or> ku_userPubkey u \<noteq> clientPubkey) \<longrightarrow>
              isRequestPermitted rt st keyName clientPubkey meth
                (map_option PString paramPrimary) = None)"
proof
  show eq: "isRequestPermitted rt st keyName clientPubkey meth (map_option PString paramPrimary) =
            spec_evaluate rt st keyName clientPubkey meth paramPrimary"
  proof (cases "spec_keyUsers st keyName clientPubkey")
    case Nil
    then show ?thesis
      by (simp add: isRequestPermitted_def spec_evaluate_def findUnique_keyUser_spec)
  next
    case (Cons u others)
    have m: "matches_query (ku_id u)
               (buildConditionQuery rt meth (map_option PString paramPrimary)) =
             (\<lambda>c. sc_keyUserId c = ku_id u \<and> spec_condition_matches rt meth paramPrimary c)"
      by (rule ext) (rule matches_query_spec[OF assms])
    show ?thesis
    proof (cases "spec_wildcard_veto st u")
      case True
      then have "find (is_explicitDeny (ku_id u)) (signingConditions st) \<noteq> None"
        using explicitDeny_spec[of u st] by simp
      then show ?thesis using Cons True
        by (auto simp: isRequestPermitted_def spec_evaluate_def findUnique_keyUser_spec)
    next
      case False
      then have "find (is_explicitDeny (ku_id u)) (signingConditions st) = None"
        using explicitDeny_spec[of u st] by simp
      then show ?thesis using Cons False
        by (simp add: isRequestPermitted_def spec_evaluate_def findUnique_keyUser_spec m
              Let_def find_filter[of _ "signingConditions st"] split: list.splits)
    qed
  qed
  show "(\<forall>u \<in> set (keyUsers st). ku_keyName u \<noteq> keyName \<or> ku_userPubkey u \<noteq> clientPubkey) \<longrightarrow>
        isRequestPermitted rt st keyName clientPubkey meth
          (map_option PString paramPrimary) = None"
  proof
    assume "\<forall>u \<in> set (keyUsers st). ku_keyName u \<noteq> keyName \<or> ku_userPubkey u \<noteq> clientPubkey"
    then have "spec_keyUsers st keyName clientPubkey = []"
      by (auto simp: spec_keyUsers_def filter_empty_conv)
    then show "isRequestPermitted rt st keyName clientPubkey meth
                 (map_option PString paramPrimary) = None"
      by (simp add: isRequestPermitted_def findUnique_keyUser_spec)
  qed
qed

text \<open>Three instances, in a store whose only KeyUser is \<^verbatim>\<open>client\<close> of key \<^verbatim>\<open>main\<close>, allowed
  to sign kind 1 only. A stranger, for whom no KeyUser row exists, asks to sign the sample
  event: unknown. The client asks to sign the sample event, whose kind is 1: allow. The
  client asks to connect, for which it has no row: unknown.\<close>

theorem isRequestPermitted_spec_witness:
  "JSON_parse sample_rt [] = None \<and>
   spec_keyUsers kind1_store ''main'' ''stranger'' = [] \<and>
   isRequestPermitted sample_rt kind1_store ''main'' ''stranger'' ''sign_event''
     (map_option PString (Some sample_event_text)) = None \<and>
   spec_evaluate sample_rt kind1_store ''main'' ''stranger'' ''sign_event''
     (Some sample_event_text) = None \<and>
   isRequestPermitted sample_rt kind1_store ''main'' ''client'' ''sign_event''
     (map_option PString (Some sample_event_text)) = Some True \<and>
   spec_evaluate sample_rt kind1_store ''main'' ''client'' ''sign_event''
     (Some sample_event_text) = Some True \<and>
   isRequestPermitted sample_rt kind1_store ''main'' ''client'' ''connect''
     (map_option PString None) = None \<and>
   spec_evaluate sample_rt kind1_store ''main'' ''client'' ''connect'' None = None"
proof -
  have h: "JSON_parse sample_rt [] = None"
    by (simp add: sample_rt_def sample_parse_def sample_event_text_def)
  have absent: "\<forall>u \<in> set (keyUsers kind1_store).
                  ku_keyName u \<noteq> ''main'' \<or> ku_userPubkey u \<noteq> ''stranger''"
    by (simp add: kind1_store_def empty_store_def sample_keyUser_def)
  have s1: "spec_evaluate sample_rt kind1_store ''main'' ''stranger'' ''sign_event''
          (Some sample_event_text) = None"
    by (simp add: spec_evaluate_def spec_keyUsers_def kind1_store_def empty_store_def
          sample_keyUser_def)
  have s2: "spec_evaluate sample_rt kind1_store ''main'' ''client'' ''sign_event''
          (Some sample_event_text) = Some True"
    by (simp add: spec_evaluate_def spec_keyUsers_def spec_wildcard_veto_def kind1_store_def
          empty_store_def sample_keyUser_def sample_grant_def
          spec_condition_matches_def spec_kind_set_def spec_event_kind_def sample_rt_def
          sample_parse_def sample_event_def show_nat.simps digit_char_def)
  have s3: "spec_evaluate sample_rt kind1_store ''main'' ''client'' ''connect'' None = None"
    by (simp add: spec_evaluate_def spec_keyUsers_def spec_wildcard_veto_def kind1_store_def
          empty_store_def sample_keyUser_def sample_grant_def spec_condition_matches_def)
  have none: "spec_keyUsers kind1_store ''main'' ''stranger'' = []"
    by (simp add: spec_keyUsers_def kind1_store_def empty_store_def sample_keyUser_def)
  show ?thesis
    using h absent none s1 s2 s3
      isRequestPermitted_spec [OF h, of kind1_store "''main''" "''stranger''"
        "''sign_event''" "Some sample_event_text"]
      isRequestPermitted_spec [OF h, of kind1_store "''main''" "''client''"
        "''sign_event''" "Some sample_event_text"]
      isRequestPermitted_spec [OF h, of kind1_store "''main''" "''client''" "''connect''" None]
    by simp
qed

section \<open>Token redemption\<close>

lemma fold_max_bounds: "a \<le> fold max ids a \<and> (\<forall>x \<in> set ids. x \<le> fold max ids (a::nat))"
proof (induction ids arbitrary: a)
  case Nil
  show ?case by simp
next
  case (Cons y ys)
  have "max y a \<le> fold max ys (max y a)" "\<forall>x \<in> set ys. x \<le> fold max ys (max y a)"
    using Cons[of "max y a"] by simp_all
  then show ?case by auto
qed

lemma fresh_id_new: "fresh_id ids \<notin> set ids"
proof
  assume "fresh_id ids \<in> set ids"
  then have "fresh_id ids \<le> fold max ids 0" using fold_max_bounds[of 0 ids] by blast
  then show False by (simp add: fresh_id_def)
qed

lemma find_distinct_key:
  "distinct (map f xs) \<Longrightarrow> x \<in> set xs \<Longrightarrow> find (\<lambda>y. f y = f x) xs = Some x"
  by (induction xs) (auto simp: image_iff)

text \<open>The upsert, on the tables alone.\<close>

lemma upsert_keyUser_redeeming:
  assumes "upsert_keyUser st now (tk_keyName t) pk (Some (tk_clientName t)) = (u, st1)"
  shows "redeeming_keyUser st t pk u"
    and "st1 = st\<lparr> keyUsers := (if u \<in> set (keyUsers st) then keyUsers st else keyUsers st @ [u]),
                      journal := journal st @ [KeyUser_upsert (tk_keyName t) pk] \<rparr>"
proof -
  let ?P = "\<lambda>x. ku_keyName x = tk_keyName t \<and> ku_userPubkey x = pk"
  show "redeeming_keyUser st t pk u"
  proof (cases "find ?P (keyUsers st)")
    case None
    then have no: "\<not> (\<exists>x \<in> set (keyUsers st). ?P x)" by (simp add: find_None_iff)
    have u: "u = \<lparr> ku_id = fresh_id (map ku_id (keyUsers st)), ku_keyName = tk_keyName t,
                     ku_userPubkey = pk, ku_description = Some (tk_clientName t),
                     ku_createdAt = now, ku_revokedAt = None \<rparr>"
      using assms None by (simp add: upsert_keyUser_def findUnique_keyUser_def Let_def)
    have "ku_id u \<notin> set (map ku_id (keyUsers st))"
      using fresh_id_new[of "map ku_id (keyUsers st)"] by (simp add: u)
    then show ?thesis using no unfolding redeeming_keyUser_def by (auto simp: u)
  next
    case (Some x)
    then have x: "x \<in> set (keyUsers st)" "?P x" by (auto simp: find_Some_iff)
    have "u = x" using assms Some by (simp add: upsert_keyUser_def findUnique_keyUser_def)
    then show ?thesis using x unfolding redeeming_keyUser_def by auto
  qed
  show "st1 = st\<lparr> keyUsers := (if u \<in> set (keyUsers st) then keyUsers st else keyUsers st @ [u]),
                     journal := journal st @ [KeyUser_upsert (tk_keyName t) pk] \<rparr>"
  proof (cases "find ?P (keyUsers st)")
    case None
    have u: "u = \<lparr> ku_id = fresh_id (map ku_id (keyUsers st)), ku_keyName = tk_keyName t,
                     ku_userPubkey = pk, ku_description = Some (tk_clientName t),
                     ku_createdAt = now, ku_revokedAt = None \<rparr>"
      using assms None by (simp add: upsert_keyUser_def findUnique_keyUser_def Let_def)
    have "ku_id u \<notin> set (map ku_id (keyUsers st))"
      using fresh_id_new[of "map ku_id (keyUsers st)"] by (simp add: u)
    then have "u \<notin> set (keyUsers st)" by auto
    then show ?thesis
      using assms None by (auto simp: upsert_keyUser_def findUnique_keyUser_def Let_def)
  next
    case (Some x)
    then have x: "x \<in> set (keyUsers st)" by (auto simp: find_Some_iff)
    then show ?thesis
      using assms Some by (auto simp: upsert_keyUser_def findUnique_keyUser_def)
  qed
qed

text \<open>The loop, on the tables alone: it appends the rows of the rules before the rejected
  statement, if one is rejected inside the loop, and of all the rules otherwise.\<close>

lemma create_rule_conditions_none:
  "\<forall>j. fault = Some j \<longrightarrow> j < k \<or> k + length rules \<le> j \<Longrightarrow>
   create_rule_conditions fault k i rules st =
     (Inr (), st\<lparr> signingConditions := signingConditions st @ map (rule_condition i) rules,
                   journal := journal st @
                     map (\<lambda>r. SigningCondition_create (rule_condition i r)) rules \<rparr>)"
proof (induction rules arbitrary: k st)
  case Nil
  show ?case by simp
next
  case (Cons r rs)
  have "fault \<noteq> Some k" using Cons.prems by auto
  moreover have "\<forall>j. fault = Some j \<longrightarrow> j < Suc k \<or> Suc k + length rs \<le> j"
    using Cons.prems by auto
  ultimately show ?case
    using Cons.IH[of "Suc k"] by (simp add: create_signingCondition_def)
qed

lemma create_rule_conditions_fault:
  "k \<le> j \<Longrightarrow> j < k + length rules \<Longrightarrow>
   create_rule_conditions (Some j) k i rules st =
     (Inl db_error,
      st\<lparr> signingConditions := signingConditions st @ map (rule_condition i) (take (j - k) rules),
          journal := journal st @
            map (\<lambda>r. SigningCondition_create (rule_condition i r)) (take (j - k) rules) \<rparr>)"
proof (induction rules arbitrary: k st)
  case Nil
  then show ?case by simp
next
  case (Cons r rs)
  show ?case
  proof (cases "j = k")
    case True
    then show ?thesis by simp
  next
    case False
    then have "Suc k \<le> j" "j < Suc k + length rs" using Cons.prems by simp_all
    moreover have "j - k = Suc (j - Suc k)" using False Cons.prems by arith
    then have "take (j - k) (r # rs) = r # take (j - Suc k) rs" by simp
    ultimately show ?thesis
      using Cons.IH[of "Suc k"] False by (simp add: create_signingCondition_def)
  qed
qed

lemma take_writes:
  assumes "2 \<le> j" "j < 2 + length xs"
  shows "take j (a # b # map f xs @ [z]) = a # b # map f (take (j - 2) xs)"
proof -
  have "j = Suc (Suc (j - 2))" using assms(1) by arith
  then obtain m where j: "j = Suc (Suc m)" ..
  then have "m < length xs" using assms(2) by simp
  then show ?thesis by (simp add: j take_map)
qed

text \<open>The whole call on a valid token, on the tables alone.\<close>

lemma applyToken_run:
  assumes fv: "fetchValidToken st now tok = Inr (t, rules)"
    and up: "upsert_keyUser st now (tk_keyName t) pk (Some (tk_clientName t)) = (u, st1)"
  shows "applyToken st fault now pk tok =
           ((if writes_done fault (length rules + 3) = length rules + 3
             then Inr () else Inl db_error),
            redemption_store st now pk t u rules (writes_done fault (length rules + 3)))"
proof -
  let ?n = "length rules"
  have st1: "st1 = st\<lparr> keyUsers := (if u \<in> set (keyUsers st) then keyUsers st
                                       else keyUsers st @ [u]),
                       journal := journal st @ [KeyUser_upsert (tk_keyName t) pk] \<rparr>"
    by (rule upsert_keyUser_redeeming(2)[OF up])
  have rows: "redemption_rows u rules =
                connect_condition (ku_id u) # map (rule_condition (ku_id u)) rules"
    by (simp add: redemption_rows_def connect_condition_def rule_condition_def)
  define st2 where "st2 = create_signingCondition st1 (connect_condition (ku_id u))"
  have st2: "st2 = st\<lparr> keyUsers := (if u \<in> set (keyUsers st) then keyUsers st
                                       else keyUsers st @ [u]),
                       signingConditions := signingConditions st @ [connect_condition (ku_id u)],
                       journal := journal st @
                         [KeyUser_upsert (tk_keyName t) pk,
                          SigningCondition_create (connect_condition (ku_id u))] \<rparr>"
    unfolding st2_def by (subst st1) (simp add: create_signingCondition_def)
  have unfold: "applyToken st fault now pk tok =
      (if fault = Some 0 then (Inl db_error, st)
       else if fault = Some 1 then (Inl db_error, st1)
       else (case create_rule_conditions fault 2 (ku_id u) rules st2 of
               (Inl e, st3) \<Rightarrow> (Inl e, st3)
             | (Inr ok, st3) \<Rightarrow>
                 if fault = Some (2 + ?n) then (Inl db_error, st3)
                 else (Inr (),
                       update_token st3 (tk_id t)
                         (\<lambda>x. x\<lparr> tk_redeemedAt := Some now,
                                  tk_keyUserId := Some (ku_id u) \<rparr>))))"
    by (simp add: applyToken_def fv up st2_def Let_def)
  consider (none) "fault = None" | (zero) "fault = Some 0" | (one) "fault = Some 1"
    | (loop) j where "fault = Some j" "2 \<le> j" "j < 2 + ?n"
    | (last) "fault = Some (2 + ?n)" | (late) j where "fault = Some j" "2 + ?n < j"
  proof (cases fault)
    case None
    then show ?thesis using that(1) by blast
  next
    case (Some a)
    have "a = 0 \<or> a = 1 \<or> (2 \<le> a \<and> a < 2 + ?n) \<or> a = 2 + ?n \<or> 2 + ?n < a" by arith
    then show ?thesis using Some that(2-6) by blast
  qed
  then show ?thesis
  proof cases
    case none
    have "create_rule_conditions fault 2 (ku_id u) rules st2 =
            (Inr (), st2\<lparr> signingConditions := signingConditions st2 @
                              map (rule_condition (ku_id u)) rules,
                            journal := journal st2 @
                              map (\<lambda>r. SigningCondition_create (rule_condition (ku_id u) r))
                                rules \<rparr>)"
      by (rule create_rule_conditions_none) (simp add: none)
    then show ?thesis
      unfolding unfold
      by (simp add: none writes_done_def redemption_store_def redemption_writes_def rows st2
            update_token_def comp_def)
  next
    case zero
    then show ?thesis
      unfolding unfold by (simp add: writes_done_def redemption_store_def)
  next
    case one
    have "applyToken st fault now pk tok = (Inl db_error, st1)"
      unfolding unfold by (simp add: one)
    also have "st1 = redemption_store st now pk t u rules 1"
      by (subst st1) (simp add: redemption_store_def redemption_writes_def)
    finally show ?thesis by (simp add: one writes_done_def)
  next
    case loop
    have "create_rule_conditions (Some j) 2 (ku_id u) rules st2 =
            (Inl db_error,
             st2\<lparr> signingConditions := signingConditions st2 @
                      map (rule_condition (ku_id u)) (take (j - 2) rules),
                    journal := journal st2 @
                      map (\<lambda>r. SigningCondition_create (rule_condition (ku_id u) r))
                        (take (j - 2) rules) \<rparr>)"
      using loop by (intro create_rule_conditions_fault) simp_all
    moreover have "j - 1 = Suc (j - 2)" using loop by simp
    moreover have "take j (KeyUser_upsert (tk_keyName t) pk #
                     SigningCondition_create (connect_condition (ku_id u)) #
                     map (\<lambda>r. SigningCondition_create (rule_condition (ku_id u) r)) rules @
                     [Token_update (tk_id t)]) =
                   KeyUser_upsert (tk_keyName t) pk #
                   SigningCondition_create (connect_condition (ku_id u)) #
                   map (\<lambda>r. SigningCondition_create (rule_condition (ku_id u) r))
                     (take (j - 2) rules)"
      using loop(2,3) by (rule take_writes)
    ultimately show ?thesis
      unfolding unfold using loop
      by (simp add: writes_done_def redemption_store_def redemption_writes_def rows st2
            take_map comp_def min_def)
  next
    case last
    have "create_rule_conditions fault 2 (ku_id u) rules st2 =
            (Inr (), st2\<lparr> signingConditions := signingConditions st2 @
                              map (rule_condition (ku_id u)) rules,
                            journal := journal st2 @
                              map (\<lambda>r. SigningCondition_create (rule_condition (ku_id u) r))
                                rules \<rparr>)"
      by (rule create_rule_conditions_none) (simp add: last)
    then show ?thesis
      unfolding unfold
      by (simp add: last writes_done_def redemption_store_def redemption_writes_def rows st2
            comp_def)
  next
    case late
    have "create_rule_conditions fault 2 (ku_id u) rules st2 =
            (Inr (), st2\<lparr> signingConditions := signingConditions st2 @
                              map (rule_condition (ku_id u)) rules,
                            journal := journal st2 @
                              map (\<lambda>r. SigningCondition_create (rule_condition (ku_id u) r))
                                rules \<rparr>)"
      using late by (intro create_rule_conditions_none) simp
    then show ?thesis
      unfolding unfold using late
      by (simp add: writes_done_def redemption_store_def redemption_writes_def rows st2
            update_token_def comp_def min_def)
  qed
qed

text \<open>The validity check, on the tables alone.\<close>

lemma fetchValidToken_tables:
  assumes "distinct (map tk_token (tokens st))" "t \<in> set (tokens st)" "tk_token t = tok"
  shows "fetchValidToken st now tok =
           (if tk_redeemedAt t \<noteq> None then Inl (Error ''Token already redeemed'')
            else if policy_missing st t then Inl (Error ''Token policy missing'')
            else if expired t now then Inl (Error ''Token expired'')
            else Inr (t, token_rules st t))"
proof -
  have found: "findUnique_token st tok = Some t"
    unfolding findUnique_token_def assms(3)[symmetric]
    using assms(1,2) by (rule find_distinct_key)
  show ?thesis
  proof (cases "tk_policyId t")
    case None
    then show ?thesis
      by (simp add: fetchValidToken_def found token_policy_def policy_missing_def)
  next
    case (Some i)
    show ?thesis
    proof (cases "find (\<lambda>p. po_id p = i) (policies st)")
      case None
      then have "policy_missing st t"
        by (auto simp: policy_missing_def Some find_None_iff)
      then show ?thesis
        using None by (simp add: fetchValidToken_def found token_policy_def Some)
    next
      case (Some p)
      then have p: "p \<in> set (policies st)" "po_id p = i" by (auto simp: find_Some_iff)
      then have present: "\<not> policy_missing st t"
        using \<open>tk_policyId t = Some i\<close> by (auto simp: policy_missing_def)
      have rules: "policy_rules st p = token_rules st t"
        using p(2) \<open>tk_policyId t = Some i\<close> by (simp add: policy_rules_def token_rules_def)
      show ?thesis
        using Some present rules \<open>tk_policyId t = Some i\<close>
        by (simp add: fetchValidToken_def found token_policy_def expired_def)
    qed
  qed
qed

text \<open>
  Claim C3, as amended. The token column being unique, \<open>applyToken\<close> fails with
  \<^verbatim>\<open>Token not found\<close> when no Token row has the text and, for the row \<open>t\<close> that has it, with
  \<^verbatim>\<open>Token already redeemed\<close>, \<^verbatim>\<open>Token policy missing\<close> or \<^verbatim>\<open>Token expired\<close>, checked in
  this order; these four failures come before the first write and leave the store as it
  was. On a valid token it issues, in order, the upsert of the KeyUser (the token's key
  name, the redeeming pubkey), the insert of a \<^verbatim>\<open>connect\<close> row and of one row per rule of
  the token's policy (the rule's method and kind, allowed, for that KeyUser), and the
  update that marks the token with \<^verbatim>\<open>redeemedAt\<close> and \<^verbatim>\<open>keyUserId\<close>. When the database
  rejects none of these statements the call succeeds and the store holds all of them.
  When it rejects one, the call fails and nothing is rolled back: the store holds the
  statements before the rejected one, and the token is not marked.
\<close>

theorem applyToken_redemption:
  assumes "distinct (map tk_token (tokens st))"
  shows "((\<forall>t \<in> set (tokens st). tk_token t \<noteq> tok) \<longrightarrow>
            applyToken st fault now remotePubkey tok = (Inl (Error ''Token not found''), st))
         \<and> (\<forall>t \<in> set (tokens st). tk_token t = tok \<longrightarrow>
              (tk_redeemedAt t \<noteq> None \<longrightarrow>
                 applyToken st fault now remotePubkey tok =
                   (Inl (Error ''Token already redeemed''), st)) \<and>
              (tk_redeemedAt t = None \<and> policy_missing st t \<longrightarrow>
                 applyToken st fault now remotePubkey tok =
                   (Inl (Error ''Token policy missing''), st)) \<and>
              (tk_redeemedAt t = None \<and> \<not> policy_missing st t \<and> expired t now \<longrightarrow>
                 applyToken st fault now remotePubkey tok =
                   (Inl (Error ''Token expired''), st)) \<and>
              (tk_redeemedAt t = None \<and> \<not> policy_missing st t \<and> \<not> expired t now \<longrightarrow>
                 (\<exists>u. redeeming_keyUser st t remotePubkey u \<and>
                      applyToken st fault now remotePubkey tok =
                        ((if writes_done fault (length (token_rules st t) + 3) =
                             length (token_rules st t) + 3
                          then Inr () else Inl db_error),
                         redemption_store st now remotePubkey t u (token_rules st t)
                           (writes_done fault (length (token_rules st t) + 3))))))"
proof (intro conjI impI ballI)
  assume "\<forall>t \<in> set (tokens st). tk_token t \<noteq> tok"
  then have "findUnique_token st tok = None"
    by (auto simp: findUnique_token_def find_None_iff)
  then show "applyToken st fault now remotePubkey tok = (Inl (Error ''Token not found''), st)"
    by (simp add: applyToken_def fetchValidToken_def)
next
  fix t assume t: "t \<in> set (tokens st)" "tk_token t = tok"
  note fv = fetchValidToken_tables[OF assms t, of now]
  {
    assume "tk_redeemedAt t \<noteq> None"
    then show "applyToken st fault now remotePubkey tok =
                 (Inl (Error ''Token already redeemed''), st)"
      by (simp add: applyToken_def fv)
  next
    assume "tk_redeemedAt t = None \<and> policy_missing st t"
    then show "applyToken st fault now remotePubkey tok =
                 (Inl (Error ''Token policy missing''), st)"
      by (simp add: applyToken_def fv)
  next
    assume "tk_redeemedAt t = None \<and> \<not> policy_missing st t \<and> expired t now"
    then show "applyToken st fault now remotePubkey tok = (Inl (Error ''Token expired''), st)"
      by (simp add: applyToken_def fv)
  next
    assume "tk_redeemedAt t = None \<and> \<not> policy_missing st t \<and> \<not> expired t now"
    then have valid: "fetchValidToken st now tok = Inr (t, token_rules st t)"
      by (simp add: fv)
    obtain u st1 where
      up: "upsert_keyUser st now (tk_keyName t) remotePubkey (Some (tk_clientName t)) = (u, st1)"
      by (cases "upsert_keyUser st now (tk_keyName t) remotePubkey (Some (tk_clientName t))")
    have "redeeming_keyUser st t remotePubkey u"
      by (rule upsert_keyUser_redeeming(1)[OF up])
    moreover have "applyToken st fault now remotePubkey tok =
        ((if writes_done fault (length (token_rules st t) + 3) = length (token_rules st t) + 3
          then Inr () else Inl db_error),
         redemption_store st now remotePubkey t u (token_rules st t)
           (writes_done fault (length (token_rules st t) + 3)))"
      by (rule applyToken_run[OF valid up])
    ultimately show "\<exists>u. redeeming_keyUser st t remotePubkey u \<and>
        applyToken st fault now remotePubkey tok =
          ((if writes_done fault (length (token_rules st t) + 3) =
               length (token_rules st t) + 3
            then Inr () else Inl db_error),
           redemption_store st now remotePubkey t u (token_rules st t)
             (writes_done fault (length (token_rules st t) + 3)))"
      by blast
  }
qed

text \<open>Two instances: \<^verbatim>\<open>client\<close> redeems the fresh sample token at time 10. When the
  database rejects nothing, the four statements are carried out: the new KeyUser, the
  \<^verbatim>\<open>connect\<close> row, the row of the one rule (\<^verbatim>\<open>sign_event\<close> of kind 1) and the token
  marked. When it rejects the third statement, the call fails with the first two carried
  out.\<close>

theorem applyToken_redemption_witness:
  "distinct (map tk_token (tokens token_store)) \<and>
   sample_token \<in> set (tokens token_store) \<and> tk_token sample_token = ''T'' \<and>
   tk_redeemedAt sample_token = None \<and> \<not> policy_missing token_store sample_token \<and>
   \<not> expired sample_token 10 \<and>
   token_rules token_store sample_token = [sample_rule] \<and>
   writes_done None 4 = 4 \<and>
   (\<exists>u. redeeming_keyUser token_store sample_token ''client'' u \<and>
        applyToken token_store None 10 ''client'' ''T'' =
          (Inr (), redemption_store token_store 10 ''client'' sample_token u [sample_rule] 4)) \<and>
   writes_done (Some 2) 4 = 2 \<and>
   (\<exists>u. redeeming_keyUser token_store sample_token ''client'' u \<and>
        applyToken token_store (Some 2) 10 ''client'' ''T'' =
          (Inl db_error,
           redemption_store token_store 10 ''client'' sample_token u [sample_rule] 2)) \<and>
   applyToken token_store None 10 ''client'' ''T'' =
     (Inr (),
      token_store\<lparr>
        keyUsers :=
          [\<lparr> ku_id = 1, ku_keyName = ''main'', ku_userPubkey = ''client'',
             ku_description = Some ''app'', ku_createdAt = 10, ku_revokedAt = None \<rparr>],
        signingConditions :=
          [\<lparr> sc_keyUserId = 1, sc_method = ''connect'', sc_kind = None,
             sc_allowed = Some True \<rparr>,
           \<lparr> sc_keyUserId = 1, sc_method = ''sign_event'', sc_kind = Some ''1'',
             sc_allowed = Some True \<rparr>],
        tokens := [sample_token\<lparr> tk_redeemedAt := Some 10, tk_keyUserId := Some 1 \<rparr>],
        journal :=
          [KeyUser_upsert ''main'' ''client'',
           SigningCondition_create
             \<lparr> sc_keyUserId = 1, sc_method = ''connect'', sc_kind = None,
               sc_allowed = Some True \<rparr>,
           SigningCondition_create
             \<lparr> sc_keyUserId = 1, sc_method = ''sign_event'', sc_kind = Some ''1'',
               sc_allowed = Some True \<rparr>,
           Token_update 1] \<rparr>)"
proof -
  have d: "distinct (map tk_token (tokens token_store))"
    by (simp add: token_store_def empty_store_def)
  have mem: "sample_token \<in> set (tokens token_store)"
    by (simp add: token_store_def empty_store_def)
  have tok: "tk_token sample_token = ''T''" "tk_redeemedAt sample_token = None"
    by (simp_all add: sample_token_def)
  have pol: "\<not> policy_missing token_store sample_token"
    by (simp add: policy_missing_def token_store_def empty_store_def sample_token_def)
  have ex: "\<not> expired sample_token 10"
    by (simp add: expired_def sample_token_def)
  have rules: "token_rules token_store sample_token = [sample_rule]"
    by (simp add: token_rules_def token_store_def empty_store_def sample_token_def
          sample_rule_def)
  have w: "writes_done None 4 = 4" by (simp add: writes_done_def)
  have general: "\<exists>u. redeeming_keyUser token_store sample_token ''client'' u \<and>
        applyToken token_store None 10 ''client'' ''T'' =
          (Inr (), redemption_store token_store 10 ''client'' sample_token u [sample_rule] 4)"
  proof -
    have "\<exists>u. redeeming_keyUser token_store sample_token ''client'' u \<and>
        applyToken token_store None 10 ''client'' ''T'' =
          ((if writes_done None (length (token_rules token_store sample_token) + 3) =
               length (token_rules token_store sample_token) + 3
            then Inr () else Inl db_error),
           redemption_store token_store 10 ''client'' sample_token u
             (token_rules token_store sample_token)
             (writes_done None (length (token_rules token_store sample_token) + 3)))"
      using applyToken_redemption [OF d, of "''T''" None 10 "''client''"] mem tok pol ex
      by blast
    then show ?thesis by (simp add: rules writes_done_def)
  qed
  have w2: "writes_done (Some 2) 4 = 2" by (simp add: writes_done_def)
  have partial: "\<exists>u. redeeming_keyUser token_store sample_token ''client'' u \<and>
        applyToken token_store (Some 2) 10 ''client'' ''T'' =
          (Inl db_error,
           redemption_store token_store 10 ''client'' sample_token u [sample_rule] 2)"
  proof -
    have "\<exists>u. redeeming_keyUser token_store sample_token ''client'' u \<and>
        applyToken token_store (Some 2) 10 ''client'' ''T'' =
          ((if writes_done (Some 2) (length (token_rules token_store sample_token) + 3) =
               length (token_rules token_store sample_token) + 3
            then Inr () else Inl db_error),
           redemption_store token_store 10 ''client'' sample_token u
             (token_rules token_store sample_token)
             (writes_done (Some 2) (length (token_rules token_store sample_token) + 3)))"
      using applyToken_redemption [OF d, of "''T''" "Some 2" 10 "''client''"] mem tok pol ex
      by blast
    then show ?thesis by (simp add: rules writes_done_def)
  qed
  have explicit: "applyToken token_store None 10 ''client'' ''T'' =
     (Inr (),
      token_store\<lparr>
        keyUsers :=
          [\<lparr> ku_id = 1, ku_keyName = ''main'', ku_userPubkey = ''client'',
             ku_description = Some ''app'', ku_createdAt = 10, ku_revokedAt = None \<rparr>],
        signingConditions :=
          [\<lparr> sc_keyUserId = 1, sc_method = ''connect'', sc_kind = None,
             sc_allowed = Some True \<rparr>,
           \<lparr> sc_keyUserId = 1, sc_method = ''sign_event'', sc_kind = Some ''1'',
             sc_allowed = Some True \<rparr>],
        tokens := [sample_token\<lparr> tk_redeemedAt := Some 10, tk_keyUserId := Some 1 \<rparr>],
        journal :=
          [KeyUser_upsert ''main'' ''client'',
           SigningCondition_create
             \<lparr> sc_keyUserId = 1, sc_method = ''connect'', sc_kind = None,
               sc_allowed = Some True \<rparr>,
           SigningCondition_create
             \<lparr> sc_keyUserId = 1, sc_method = ''sign_event'', sc_kind = Some ''1'',
               sc_allowed = Some True \<rparr>,
           Token_update 1] \<rparr>)"
    by (simp add: applyToken_def fetchValidToken_def findUnique_token_def token_policy_def
          policy_rules_def upsert_keyUser_def findUnique_keyUser_def fresh_id_def
          create_signingCondition_def connect_condition_def rule_condition_def
          update_token_def token_store_def empty_store_def sample_token_def sample_rule_def
          Let_def)
  show ?thesis using d mem tok pol ex rules w general w2 partial explicit by simp
qed

text \<open>
  Claim C3 as stated fails. \<^verbatim>\<open>client\<close> redeems the fresh sample token and the database
  rejects the third statement, the insert of the row for the policy's rule. The call
  fails, and the KeyUser created by the upsert and the \<^verbatim>\<open>connect\<close> row are in the store,
  which held neither before; the token stays unredeemed.
\<close>

theorem applyToken_rollback_counterexample:
  "fst (applyToken token_store (Some 2) 10 ''client'' ''T'') = Inl db_error \<and>
   keyUsers token_store = [] \<and>
   keyUsers (snd (applyToken token_store (Some 2) 10 ''client'' ''T'')) =
     [\<lparr> ku_id = 1, ku_keyName = ''main'', ku_userPubkey = ''client'',
        ku_description = Some ''app'', ku_createdAt = 10, ku_revokedAt = None \<rparr>] \<and>
   signingConditions token_store = [] \<and>
   signingConditions (snd (applyToken token_store (Some 2) 10 ''client'' ''T'')) =
     [\<lparr> sc_keyUserId = 1, sc_method = ''connect'', sc_kind = None, sc_allowed = Some True \<rparr>] \<and>
   tokens (snd (applyToken token_store (Some 2) 10 ''client'' ''T'')) = [sample_token]"
  by (simp add: applyToken_def fetchValidToken_def findUnique_token_def token_policy_def
        policy_rules_def upsert_keyUser_def findUnique_keyUser_def fresh_id_def
        create_signingCondition_def connect_condition_def rule_condition_def
        token_store_def empty_store_def sample_token_def sample_rule_def Let_def)

text \<open>
  Claim C7. For every token row whose \<^verbatim>\<open>redeemedAt\<close> is not null (the token column being
  unique), redeeming it again fails with \<^verbatim>\<open>Token already redeemed\<close> and the store,
  journal of writes included, is the one before the call: no KeyUser is created or
  updated, no SigningCondition is inserted and the token row is unchanged. No write is
  attempted, so this holds whatever statement the database would reject.
\<close>

theorem redeemed_token_rejected:
  "t \<in> set (tokens st) \<and> tk_redeemedAt t \<noteq> None \<and> distinct (map tk_token (tokens st)) \<longrightarrow>
   applyToken st fault now remotePubkey (tk_token t) = (Inl (Error ''Token already redeemed''), st)"
proof
  assume h: "t \<in> set (tokens st) \<and> tk_redeemedAt t \<noteq> None \<and> distinct (map tk_token (tokens st))"
  then have "findUnique_token st (tk_token t) = Some t"
    unfolding findUnique_token_def by (intro find_distinct_key) simp_all
  then show "applyToken st fault now remotePubkey (tk_token t) =
             (Inl (Error ''Token already redeemed''), st)"
    using h by (simp add: applyToken_def fetchValidToken_def)
qed

text \<open>An instance: the sample token, once redeemed at time 10, is presented again.\<close>

theorem redeemed_token_rejected_witness:
  "sample_token\<lparr> tk_redeemedAt := Some 10 \<rparr> \<in>
     set (tokens (token_store\<lparr> tokens := [sample_token\<lparr> tk_redeemedAt := Some 10 \<rparr>] \<rparr>)) \<and>
   tk_redeemedAt (sample_token\<lparr> tk_redeemedAt := Some 10 \<rparr>) \<noteq> None \<and>
   distinct (map tk_token (tokens (token_store\<lparr> tokens := [sample_token\<lparr> tk_redeemedAt := Some 10 \<rparr>] \<rparr>))) \<and>
   applyToken (token_store\<lparr> tokens := [sample_token\<lparr> tk_redeemedAt := Some 10 \<rparr>] \<rparr>) None 11 ''other'' ''T'' =
     (Inl (Error ''Token already redeemed''),
      token_store\<lparr> tokens := [sample_token\<lparr> tk_redeemedAt := Some 10 \<rparr>] \<rparr>)"
  using redeemed_token_rejected
    [of "sample_token\<lparr> tk_redeemedAt := Some 10 \<rparr>"
        "token_store\<lparr> tokens := [sample_token\<lparr> tk_redeemedAt := Some 10 \<rparr>] \<rparr>" None 11 "''other''"]
  by (simp add: sample_token_def)

section \<open>The admin allow-list\<close>

lemma set_decodeNpubs:
  "set (decodeNpubs decode npubs) = {d. \<exists>e \<in> set npubs. decode e = Some (''npub'', d)}"
  by (induction npubs) (auto split: option.splits)

lemma decodeNpubs_filter:
  "decodeNpubs decode (filter (valid_npub decode) npubs) = decodeNpubs decode npubs"
  by (induction npubs) (auto simp: valid_npub_def split: option.splits)

text \<open>
  Claim C10. \<open>validateAdminRequest\<close> returns true exactly when the request's pubkey is
  present, non-empty and is the data that \<^verbatim>\<open>nip19.decode\<close> gives, with type \<^verbatim>\<open>npub\<close>,
  for some entry of the allow-list. Entries that fail to decode or decode to another
  type are skipped without an error (the function always returns a boolean): dropping
  them from the list changes no answer, and a list made of such entries only authorises
  nobody.
\<close>

theorem validateAdminRequest_exact:
  "validateAdminRequest decode req allowedNpubs =
     (\<exists>pk. rpc_pubkey req = Some pk \<and> pk \<noteq> [] \<and>
           (\<exists>e \<in> set allowedNpubs. decode e = Some (''npub'', pk)))
   \<and> validateAdminRequest decode req allowedNpubs =
       validateAdminRequest decode req (filter (valid_npub decode) allowedNpubs)
   \<and> ((\<forall>e \<in> set allowedNpubs. \<not> valid_npub decode e) \<longrightarrow>
        \<not> validateAdminRequest decode req allowedNpubs)"
  by (auto simp: validateAdminRequest_def set_decodeNpubs decodeNpubs_filter valid_npub_def
        split: option.splits)

text \<open>An instance: the requester's pubkey is \<^verbatim>\<open>aa01\<close>. A list holding that raw hex key and
  an nsec does not authorise it; a list holding the npub of \<^verbatim>\<open>aa01\<close> does.\<close>

theorem validateAdminRequest_exact_witness:
  "\<not> valid_npub sample_decode ''aa01'' \<and> \<not> valid_npub sample_decode ''nsec1secret'' \<and>
   \<not> validateAdminRequest sample_decode (stranger_request\<lparr> rpc_pubkey := Some ''aa01'' \<rparr>)
       [''aa01'', ''nsec1secret''] \<and>
   validateAdminRequest sample_decode (stranger_request\<lparr> rpc_pubkey := Some ''aa01'' \<rparr>)
       [''aa01'', ''npub1admin'']"
  using validateAdminRequest_exact [of sample_decode
          "stranger_request\<lparr> rpc_pubkey := Some ''aa01'' \<rparr>" "[''aa01'', ''nsec1secret'']"]
        validateAdminRequest_exact [of sample_decode
          "stranger_request\<lparr> rpc_pubkey := Some ''aa01'' \<rparr>" "[''aa01'', ''npub1admin'']"]
  by (simp add: valid_npub_def sample_decode_def)

section \<open>Requests from outside the allow-list\<close>

text \<open>For every management RPC except \<^verbatim>\<open>create_account\<close>, a request whose pubkey is absent
  or not in the decoded allow-list makes \<open>handleRpcRequest\<close> throw before the \<^verbatim>\<open>switch\<close>:
  the store is untouched. The listener only logs the error: nothing is sent.\<close>

lemma unauthorised_request_changes_nothing:
  assumes "rpc_method req \<noteq> ''create_account''"
    and "\<not> validateAdminRequest (ae_decode env) req (ae_npubs env)"
  shows "handleRpcRequest env w req =
           (Inl (Error ''You are not authorised to perform this action''), w)"
    and "w_store (on_request env w req) = w_store w"
    and "w_outbox (on_request env w req) = w_outbox w"
  using assms by (simp_all add: handleRpcRequest_def on_request_def)

text \<open>
  Claim C5, at a failing input. The allow-list holds one npub, of the key \<^verbatim>\<open>aa01\<close>; the
  pubkey \<^verbatim>\<open>cc03\<close> sends \<^verbatim>\<open>revoke_user ["1"]\<close>. The store is unchanged, as the claim says,
  but the requester receives no error response: the outbox stays empty and the error
  text goes to the debug log only. The same request from \<^verbatim>\<open>aa01\<close> is carried out and
  answered.
\<close>

theorem unauthorised_rpc_gets_no_response:
  "\<not> validateAdminRequest (ae_decode sample_env) stranger_request (ae_npubs sample_env) \<and>
   on_request sample_env sample_world stranger_request =
     sample_world\<lparr> w_debug :=
       [''Error processing admin request revoke_user: You are not authorised to perform this action''] \<rparr> \<and>
   w_outbox (on_request sample_env sample_world stranger_request) = [] \<and>
   w_outbox (on_request sample_env sample_world (stranger_request\<lparr> rpc_pubkey := Some ''aa01'' \<rparr>)) =
     [\<lparr> rs_id = ''r1'', rs_to = Some ''aa01'', rs_result = ''[\"ok\"]'', rs_kind = 24134,
        rs_error = None \<rparr>]"
  by (simp add: on_request_def handleRpcRequest_def validateAdminRequest_def sample_env_def
        sample_decode_def stranger_request_def sample_world_def revokeUser_command_def
        revokeUser_def update_keyUser_def granted_store_def empty_store_def sample_keyUser_def
        param_def sendResponse_def NostrConnectAdmin_def)

section \<open>The authorization broker on the web path\<close>

lemma awaitWebDecision_decided:
  "\<forall>r \<in> set pending. rq_allowed r = None \<Longrightarrow> rq_allowed r = Some d \<Longrightarrow>
   awaitWebDecision (map Some pending @ Some r # later) =
     (if d then Resolved (rq_params r) else Rejected (Error ''Request denied''))"
  by (induction pending) auto

lemma awaitWebDecision_reaped:
  "\<forall>r \<in> set pending. rq_allowed r = None \<Longrightarrow>
   awaitWebDecision (map Some pending @ None # later) = Abandoned"
  by (induction pending) auto

lemma awaitWebDecision_undecided:
  "\<forall>r \<in> set pending. rq_allowed r = None \<Longrightarrow> awaitWebDecision (map Some pending) = Polling"
  by (induction pending) auto

lemma observations_undecided:
  "observations undecided_history 0 ''abc'' n =
     replicate (min n 599) (Some sample_request) @ replicate (n - 599) None"
proof -
  have obs: "\<And>k. findUnique_request (undecided_history (tick_time 0 k)) ''abc'' =
                 (if k < 599 then Some sample_request else None)"
    by (auto simp: undecided_history_def tick_time_def poll_interval_def reaper_delay_def
          sample_request_def findUnique_request_def granted_store_def empty_store_def)
  have "map (\<lambda>k. if k < 599 then Some sample_request else None) [0..<n] =
        replicate (min n 599) (Some sample_request) @ replicate (n - 599) None"
  proof (induction n)
    case 0 show ?case by simp
  next
    case (Suc n)
    show ?case
    proof (cases "n < 599")
      case True
      then show ?thesis using Suc by (simp add: min_def replicate_append_same)
    next
      case False
      then have "Suc n - 599 = Suc (n - 599)" by simp
      then show ?thesis using Suc False
        by (simp add: min_def replicate_append_same)
    qed
  qed
  then show ?thesis by (simp add: observations_def obs)
qed

lemma reaped_request_never_settles:
  "awaitWebDecision (observations undecided_history 0 ''abc'' n) =
     (if n < 600 then Polling else Abandoned)"
proof -
  have und: "\<forall>r \<in> set (replicate m sample_request). rq_allowed r = None" for m
    by (simp add: sample_request_def)
  show ?thesis
  proof (cases "n < 600")
    case True
    then have "observations undecided_history 0 ''abc'' n =
               map Some (replicate n sample_request)"
      by (simp add: observations_undecided min_def)
    then show ?thesis using True awaitWebDecision_undecided[OF und] by simp
  next
    case False
    then obtain m where m: "n - 599 = Suc m" by (cases "n - 599") auto
    have "observations undecided_history 0 ''abc'' n =
          map Some (replicate 599 sample_request) @ None # replicate m None"
      using False m by (simp add: observations_undecided min_def)
    then show ?thesis using False awaitWebDecision_reaped[OF und] by simp
  qed
qed

lemma awaitWebDecision_first_decided:
  assumes "m < n"
    and "\<forall>k < m. \<exists>r. f k = Some r \<and> rq_allowed r = None"
    and "f m = Some decided" "rq_allowed decided = Some d"
  shows "awaitWebDecision (map f [0..<n]) =
         (if d then Resolved (rq_params decided) else Rejected (Error ''Request denied''))"
proof -
  let ?pending = "map (\<lambda>k. the (f k)) [0..<m]"
  have split: "[0..<n] = [0..<m] @ m # [Suc m..<n]"
    using assms(1) by (metis upt_conv_Cons upt_add_eq_append[of 0 m "n - m"] le0
        le_add_diff_inverse less_imp_le_nat)
  have "map f [0..<m] = map Some ?pending"
    using assms(2) by auto
  then have "map f [0..<n] = map Some ?pending @ Some decided # map f [Suc m..<n]"
    using split assms(3) by simp
  moreover have "\<forall>r \<in> set ?pending. rq_allowed r = None"
    using assms(2) by auto
  ultimately show ?thesis
    using awaitWebDecision_decided[of ?pending decided d] assms(4) by simp
qed

text \<open>
  Claim C4, as amended. On the web path (a non-empty \<open>baseUrl\<close>) \<open>requestAuthorization\<close>
  persists the pending request, schedules its reaper 60 s later and sends the client
  one response whose result is the sentinel \<^verbatim>\<open>auth_url\<close> and whose error slot carries the
  URL: \<open>baseUrl\<close> without its trailing slashes, then \<^verbatim>\<open>/requests/\<close>, then the id of the
  pending request. It then polls the record every 100 ms (tick \<open>k\<close> reads the database
  at \<open>start + 100 * (k + 1)\<close>): at the first tick that finds the record decided, every
  earlier tick having found it undecided, the promise resolves with the stored params
  when \<^verbatim>\<open>allowed\<close> is true and rejects with \<^verbatim>\<open>Request denied\<close> when it is false.
\<close>

theorem web_authorization:
  "b \<noteq> [] \<longrightarrow>
     snd (requestAuthorization rt w newId now (Some b) keyName remotePubkey requestId meth
            payload polls relay) =
       w\<lparr> w_store := create_request (w_store w)
                        \<lparr> rq_id = newId, rq_keyName = keyName, rq_requestId = requestId,
                          rq_remotePubkey = remotePubkey, rq_method = meth,
                          rq_params = serialiseParam rt payload, rq_allowed = None,
                          rq_createdAt = now, rq_processedAt = None \<rparr>,
          w_reapers := w_reapers w @ [(now + 60000, newId)],
          w_outbox := w_outbox w @
                        [\<lparr> rs_id = requestId, rs_to = Some remotePubkey, rs_result = ''auth_url'',
                           rs_kind = 24133,
                           rs_error = Some (strip_trailing_slashes b @ ''/requests/'' @ newId) \<rparr>] \<rparr>
     \<and> tick_time start k = start + 100 * (int k + 1)
     \<and> (m < n \<and>
         (\<forall>j < m. \<exists>r. findUnique_request (history (tick_time start j)) newId = Some r \<and>
                       rq_allowed r = None) \<and>
         findUnique_request (history (tick_time start m)) newId = Some decided \<and>
         rq_allowed decided = Some d \<longrightarrow>
          fst (requestAuthorization rt w newId now (Some b) keyName remotePubkey requestId meth
                 payload (observations history start newId n) relay) =
            (if d then Resolved (rq_params decided) else Rejected (Error ''Request denied'')))"
proof (intro impI)
  assume b: "b \<noteq> []"
  have sent: "snd (requestAuthorization rt w newId now (Some b) keyName remotePubkey requestId meth
            payload polls relay) =
       w\<lparr> w_store := create_request (w_store w)
                        \<lparr> rq_id = newId, rq_keyName = keyName, rq_requestId = requestId,
                          rq_remotePubkey = remotePubkey, rq_method = meth,
                          rq_params = serialiseParam rt payload, rq_allowed = None,
                          rq_createdAt = now, rq_processedAt = None \<rparr>,
          w_reapers := w_reapers w @ [(now + 60000, newId)],
          w_outbox := w_outbox w @
                        [\<lparr> rs_id = requestId, rs_to = Some remotePubkey, rs_result = ''auth_url'',
                           rs_kind = 24133,
                           rs_error = Some (strip_trailing_slashes b @ ''/requests/'' @ newId) \<rparr>] \<rparr>"
    using b
    by (simp add: requestAuthorization_def persistRequest_def sendResponse_def
          buildRequestUrl_def reaper_delay_def NostrConnect_def Let_def)
  have tick: "tick_time start k = start + 100 * (int k + 1)"
    by (simp add: tick_time_def poll_interval_def)
  have polled: "m < n \<and>
         (\<forall>j < m. \<exists>r. findUnique_request (history (tick_time start j)) newId = Some r \<and>
                       rq_allowed r = None) \<and>
         findUnique_request (history (tick_time start m)) newId = Some decided \<and>
         rq_allowed decided = Some d \<longrightarrow>
          fst (requestAuthorization rt w newId now (Some b) keyName remotePubkey requestId meth
                 payload (observations history start newId n) relay) =
            (if d then Resolved (rq_params decided) else Rejected (Error ''Request denied''))"
  proof
    assume h: "m < n \<and>
         (\<forall>j < m. \<exists>r. findUnique_request (history (tick_time start j)) newId = Some r \<and>
                       rq_allowed r = None) \<and>
         findUnique_request (history (tick_time start m)) newId = Some decided \<and>
         rq_allowed decided = Some d"
    have "awaitWebDecision (observations history start newId n) =
          (if d then Resolved (rq_params decided) else Rejected (Error ''Request denied''))"
      unfolding observations_def
      by (rule awaitWebDecision_first_decided[where m = m]) (use h in simp_all)
    then show "fst (requestAuthorization rt w newId now (Some b) keyName remotePubkey requestId
                 meth payload (observations history start newId n) relay) =
            (if d then Resolved (rq_params decided) else Rejected (Error ''Request denied''))"
      using b by (simp add: requestAuthorization_def persistRequest_def Let_def)
  qed
  show "snd (requestAuthorization rt w newId now (Some b) keyName remotePubkey requestId meth
            payload polls relay) =
       w\<lparr> w_store := create_request (w_store w)
                        \<lparr> rq_id = newId, rq_keyName = keyName, rq_requestId = requestId,
                          rq_remotePubkey = remotePubkey, rq_method = meth,
                          rq_params = serialiseParam rt payload, rq_allowed = None,
                          rq_createdAt = now, rq_processedAt = None \<rparr>,
          w_reapers := w_reapers w @ [(now + 60000, newId)],
          w_outbox := w_outbox w @
                        [\<lparr> rs_id = requestId, rs_to = Some remotePubkey, rs_result = ''auth_url'',
                           rs_kind = 24133,
                           rs_error = Some (strip_trailing_slashes b @ ''/requests/'' @ newId) \<rparr>] \<rparr>
     \<and> tick_time start k = start + 100 * (int k + 1)
     \<and> (m < n \<and>
         (\<forall>j < m. \<exists>r. findUnique_request (history (tick_time start j)) newId = Some r \<and>
                       rq_allowed r = None) \<and>
         findUnique_request (history (tick_time start m)) newId = Some decided \<and>
         rq_allowed decided = Some d \<longrightarrow>
          fst (requestAuthorization rt w newId now (Some b) keyName remotePubkey requestId meth
                 payload (observations history start newId n) relay) =
            (if d then Resolved (rq_params decided) else Rejected (Error ''Request denied'')))"
    using sent tick polled by (intro conjI)
qed

text \<open>An instance: the base URL ends with a slash; the tick at 100 ms finds the sample
  request undecided, the tick at 200 ms finds it approved with its params rewritten.\<close>

theorem web_authorization_witness:
  "''https://bunker.example.com/'' \<noteq> [] \<and>
   w_outbox (snd (requestAuthorization sample_rt sample_world ''abc'' 0
       (Some ''https://bunker.example.com/'') (Some ''main'') ''client'' ''r7'' ''sign_event''
       (Some (PString sample_event_text)) [] None)) =
     [\<lparr> rs_id = ''r7'', rs_to = Some ''client'', rs_result = ''auth_url'', rs_kind = 24133,
        rs_error = Some ''https://bunker.example.com/requests/abc'' \<rparr>] \<and>
   findUnique_request (approved_history (tick_time 0 0)) ''abc'' = Some sample_request \<and>
   rq_allowed sample_request = None \<and>
   findUnique_request (approved_history (tick_time 0 1)) ''abc'' = Some approved_request \<and>
   rq_allowed approved_request = Some True \<and>
   fst (requestAuthorization sample_rt sample_world ''abc'' 0
       (Some ''https://bunker.example.com/'') (Some ''main'') ''client'' ''r7'' ''sign_event''
       (Some (PString sample_event_text)) (observations approved_history 0 ''abc'' 2) None) =
     Resolved (Some ''rewritten'')"
proof -
  have t0: "findUnique_request (approved_history (tick_time 0 0)) ''abc'' = Some sample_request"
    by (simp add: findUnique_request_def approved_history_def tick_time_def poll_interval_def
          granted_store_def empty_store_def sample_request_def)
  have t1: "findUnique_request (approved_history (tick_time 0 1)) ''abc'' = Some approved_request"
    by (simp add: findUnique_request_def approved_history_def tick_time_def poll_interval_def
          granted_store_def empty_store_def sample_request_def approved_request_def)
  have und: "rq_allowed sample_request = None" by (simp add: sample_request_def)
  have dec: "rq_allowed approved_request = Some True" "rq_params approved_request = Some ''rewritten''"
    by (simp_all add: approved_request_def)
  have before: "\<forall>j < 1. \<exists>r. findUnique_request (approved_history (tick_time 0 j)) ''abc'' = Some r \<and>
                       rq_allowed r = None"
    using t0 und by simp
  show ?thesis
    using web_authorization [of "''https://bunker.example.com/''" sample_rt sample_world "''abc''"
        0 "Some ''main''" "''client''" "''r7''" "''sign_event''"
        "Some (PString sample_event_text)" "[]" None 0 0 1 2 approved_history approved_request True]
      t0 t1 und dec before
    by (simp add: sample_world_def strip_trailing_slashes_def)
qed

text \<open>The timeout, in general: when a tick finds that the record is gone, every earlier
  tick having found it undecided, the interval is cleared and the promise is left
  unsettled for good.\<close>

lemma awaitWebDecision_record_gone:
  assumes "m < n"
    and "\<forall>k < m. \<exists>r. f k = Some r \<and> rq_allowed r = None"
    and "f m = None"
  shows "awaitWebDecision (map f [0..<n]) = Abandoned"
proof -
  let ?pending = "map (\<lambda>k. the (f k)) [0..<m]"
  have split: "[0..<n] = [0..<m] @ m # [Suc m..<n]"
    using assms(1) by (metis upt_conv_Cons upt_add_eq_append[of 0 m "n - m"] le0
        le_add_diff_inverse less_imp_le_nat)
  have "map f [0..<m] = map Some ?pending"
    using assms(2) by auto
  then have "map f [0..<n] = map Some ?pending @ None # map f [Suc m..<n]"
    using split assms(3) by simp
  moreover have "\<forall>r \<in> set ?pending. rq_allowed r = None"
    using assms(2) by auto
  ultimately show ?thesis
    using awaitWebDecision_reaped[of ?pending] by simp
qed

text \<open>
  Claim C4 as stated fails twice. With the base URL \<^verbatim>\<open>https://bunker.example.com/\<close> the
  URL sent is not \<^verbatim>\<open>${baseUrl}/requests/${pendingId}\<close>: the trailing slash is dropped.
  And when the request stays undecided until the reaper removes it, 60 s after its
  creation, the 600th tick finds no record, clears the interval and returns: the
  promise is neither resolved nor rejected, and never will be.
\<close>

theorem web_authorization_counterexample:
  "rs_error (last (w_outbox (snd (requestAuthorization sample_rt sample_world ''abc'' 0
       (Some ''https://bunker.example.com/'') (Some ''main'') ''client'' ''r7'' ''sign_event''
       (Some (PString sample_event_text)) [] None)))) \<noteq>
     Some (''https://bunker.example.com/'' @ ''/requests/'' @ ''abc'') \<and>
   fst (requestAuthorization sample_rt sample_world ''abc'' 0
       (Some ''https://bunker.example.com/'') (Some ''main'') ''client'' ''r7'' ''sign_event''
       (Some (PString sample_event_text))
       (observations undecided_history 0 ''abc'' 600) None) = Abandoned"
  by (simp add: requestAuthorization_def persistRequest_def sendResponse_def buildRequestUrl_def
        Let_def strip_trailing_slashes_def reaped_request_never_settles)

section \<open>The listing of requests\<close>

lemma get_requests_rows:
  "set (get_requests rt allKeys st l off status now nowMillis)
     \<subseteq> view_request rt allKeys nowMillis ` set (requests st)"
proof -
  have "set (take a (drop b (sort_key f (filter P xs)))) \<subseteq> set xs"
    for a b P and f :: "request \<Rightarrow> int" and xs :: "request list"
  proof -
    have "set (take a (drop b (sort_key f (filter P xs)))) \<subseteq> set (sort_key f (filter P xs))"
      using set_take_subset set_drop_subset by fast
    then show ?thesis by auto
  qed
  then show ?thesis
    unfolding get_requests_def Let_def set_map by (intro image_mono)
qed

text \<open>
  Claim C8, as amended. Every row returned by \<^verbatim>\<open>GET /requests\<close> is the view of a stored
  request and carries \<^verbatim>\<open>ttlSeconds\<close> = max(0, 60 s minus the age of the request, rounded
  to the nearest second, a half second going up), the age being taken at the
  handler's second clock read. Its \<^verbatim>\<open>eventPreview\<close> is null when the method is not
  \<^verbatim>\<open>sign_event\<close>, when no params are stored, or when the stored params fail to parse as
  JSON: a parse failure gives a null field, not an error response (the handler always
  returns the list).
\<close>

theorem requests_listing:
  "v \<in> set (get_requests rt allKeys st requestedLimit requestedOffset status now nowMillis) \<longrightarrow>
     (\<exists>r \<in> set (requests st).
        v = view_request rt allKeys nowMillis r \<and>
        rv_ttlSeconds v = max 0 ((60000 - (nowMillis - rq_createdAt r) + 500) div 1000) \<and>
        (rq_method r \<noteq> ''sign_event'' \<or> missing (rq_params r) \<or>
         JSON_parse rt (the (rq_params r)) = None \<longrightarrow> rv_eventPreview v = None))"
proof
  assume "v \<in> set (get_requests rt allKeys st requestedLimit requestedOffset status now nowMillis)"
  then obtain r where r: "r \<in> set (requests st)" "v = view_request rt allKeys nowMillis r"
    using get_requests_rows by blast
  have "rv_ttlSeconds v = max 0 ((60000 - (nowMillis - rq_createdAt r) + 500) div 1000)"
    by (simp add: r(2) view_request_def Let_def round_div_1000_def algebra_simps)
  moreover have "rq_method r \<noteq> ''sign_event'' \<or> missing (rq_params r) \<or>
         JSON_parse rt (the (rq_params r)) = None \<longrightarrow> rv_eventPreview v = None"
    by (auto simp: r(2) view_request_def Let_def build_eventPreview_def)
  ultimately show "\<exists>r \<in> set (requests st).
        v = view_request rt allKeys nowMillis r \<and>
        rv_ttlSeconds v = max 0 ((60000 - (nowMillis - rq_createdAt r) + 500) div 1000) \<and>
        (rq_method r \<noteq> ''sign_event'' \<or> missing (rq_params r) \<or>
         JSON_parse rt (the (rq_params r)) = None \<longrightarrow> rv_eventPreview v = None)"
    using r(2) by (intro bexI[OF _ r(1)] conjI) simp_all
qed

text \<open>An instance: one pending \<^verbatim>\<open>sign_event\<close> request, 400 ms old, whose stored params are
  not JSON.\<close>

theorem requests_listing_witness:
  "view_request sample_rt sample_allKeys 400 (sample_request\<lparr> rq_params := Some ''not json'' \<rparr>)
     \<in> set (get_requests sample_rt sample_allKeys
              (granted_store\<lparr> requests := [sample_request\<lparr> rq_params := Some ''not json'' \<rparr>] \<rparr>)
              None None None 400 400) \<and>
   JSON_parse sample_rt ''not json'' = None \<and>
   rv_ttlSeconds (view_request sample_rt sample_allKeys 400
                    (sample_request\<lparr> rq_params := Some ''not json'' \<rparr>)) = 60 \<and>
   rv_eventPreview (view_request sample_rt sample_allKeys 400
                    (sample_request\<lparr> rq_params := Some ''not json'' \<rparr>)) = None"
proof -
  let ?r = "sample_request\<lparr> rq_params := Some ''not json'' \<rparr>"
  let ?v = "view_request sample_rt sample_allKeys 400 ?r"
  have mem: "?v \<in> set (get_requests sample_rt sample_allKeys
              (granted_store\<lparr> requests := [?r] \<rparr>) None None None 400 400)"
    by (simp add: get_requests_def status_filter_def missing_def sample_request_def)
  have parse: "JSON_parse sample_rt ''not json'' = None"
    by (simp add: sample_rt_def sample_parse_def sample_event_text_def)
  from requests_listing [of ?v sample_rt sample_allKeys "granted_store\<lparr> requests := [?r] \<rparr>"
      None None None 400 400] mem
  have "rv_ttlSeconds ?v = max 0 ((60000 - (400 - rq_createdAt ?r) + 500) div 1000) \<and>
        (JSON_parse sample_rt (the (rq_params ?r)) = None \<longrightarrow> rv_eventPreview ?v = None)"
    by simp
  then show ?thesis using mem parse by (simp add: sample_request_def)
qed

lemma sample_listing:
  "get_requests sample_rt sample_allKeys (granted_store\<lparr> requests := [sample_request] \<rparr>)
     None None None 400 400 =
   [view_request sample_rt sample_allKeys 400 sample_request]"
  by (simp add: get_requests_def status_filter_def missing_def sample_request_def)

text \<open>
  Claim C8 as stated fails twice. The request stored by \<open>persistRequest\<close> for a
  \<^verbatim>\<open>sign_event\<close> call whose first parameter is the sample event is listed 400 ms later
  with \<^verbatim>\<open>ttlSeconds\<close> = 60, not 59.6 = 60 s minus its age. And its \<^verbatim>\<open>eventPreview\<close> is
  null although the stored params parse and the event has a kind, a content and tags:
  the handler looks for an array and \<open>persistRequest\<close> stored the event itself.
\<close>

theorem requests_listing_counterexample:
  "fst (persistRequest sample_rt sample_world ''abc'' 0 (Some ''main'') ''r7'' ''client''
          ''sign_event'' (Some (PString sample_event_text))) = sample_request \<and>
   map rv_ttlSeconds
     (get_requests sample_rt sample_allKeys (granted_store\<lparr> requests := [sample_request] \<rparr>)
        None None None 400 400) = [60] \<and>
   (60 :: int) * 1000 \<noteq> max 0 (60000 - (400 - rq_createdAt sample_request)) \<and>
   JSON_parse sample_rt (the (rq_params sample_request)) =
     Some (JObject [(''kind'', JNumber 1), (''content'', JString ''hi''), (''tags'', JArray [])]) \<and>
   map rv_eventPreview
     (get_requests sample_rt sample_allKeys (granted_store\<lparr> requests := [sample_request] \<rparr>)
        None None None 400 400) = [None]"
  unfolding sample_listing
  by (simp add: view_request_def build_eventPreview_def round_div_1000_def
        persistRequest_def serialiseParam_def sample_request_def sample_rt_def sample_parse_def
        sample_event_def sample_event_text_def missing_def Let_def)

section \<open>The vault\<close>

lemma utf8_roundtrip: "utf8_decode (utf8_encode s) = s"
proof -
  have "char_of (unat (of_nat (of_char c :: nat) :: byte)) = c" for c
    by (simp add: unat_of_nat)
  then show ?thesis by (simp add: utf8_decode_def utf8_encode_def comp_def)
qed

lemma hex_value_digit: "d < 16 \<Longrightarrow> hex_value (hex_digit d) = Some d"
proof -
  assume "d < 16"
  then have "d \<in> {0, 1, 2, 3, 4, 5, 6, 7, 8, 9, 10, 11, 12, 13, 14, 15}" by simp arith
  then show ?thesis
    by (elim insertE emptyE) (simp_all add: hex_digit_def hex_value_def)
qed

lemma byte_of_nibbles: "(of_nat (16 * (unat b div 16) + unat b mod 16) :: byte) = b"
  by simp

lemma hex_roundtrip: "hex_decode (hex_encode bs) = bs"
proof (induction bs)
  case Nil show ?case by simp
next
  case (Cons b bs)
  have "unat b < 256" using unsigned_less[of b] by simp
  then have "unat b div 16 < 16" by simp
  then show ?case using Cons
    by (simp add: hex_value_digit byte_of_nibbles del: of_nat_add of_nat_mult)
qed

lemma hmac_key_nul: "length K < 64 \<Longrightarrow> hmac_key H (K @ [0]) = hmac_key H K"
proof -
  assume "length K < 64"
  then obtain n where n: "64 - length K = Suc n" by (cases "64 - length K") auto
  then have "64 - Suc (length K) = n" by simp
  then show ?thesis using n \<open>length K < 64\<close>
    by (simp add: hmac_key_def Let_def replicate_append_same)
qed

lemma hmac_nul: "length K < 64 \<Longrightarrow> hmac H (K @ [0]) m = hmac H K m"
  by (simp add: hmac_def hmac_key_nul)

lemma pbkdf2_rounds_nul:
  "length K < 64 \<Longrightarrow> pbkdf2_rounds H (K @ [0]) u acc n = pbkdf2_rounds H K u acc n"
  by (induction n arbitrary: u acc) (simp_all add: hmac_nul Let_def)

lemma utf8_encode_nul: "utf8_encode (pw @ [CHR 0x00]) = utf8_encode pw @ [0]"
  by (simp add: utf8_encode_def)

lemma deriveKey_nul:
  "length pw < 64 \<Longrightarrow> deriveKey cr (pw @ [CHR 0x00]) salt = deriveKey cr pw salt"
  by (simp add: deriveKey_def pbkdf2_block1_def utf8_encode_nul hmac_nul pbkdf2_rounds_nul
        utf8_encode_def Let_def)

lemma decrypt_encrypted:
  assumes "length salt = 16"
  shows "decryptSecret cr (encryptSecret cr salt iv p pw) pw' =
         (case aes_256_cbc_decrypt cr (deriveKey cr pw' salt) iv
                 (aes_256_cbc_encrypt cr (deriveKey cr pw salt) iv (utf8_encode p)) of
            None \<Rightarrow> Inl (Error ''bad decrypt'')
          | Some decrypted \<Rightarrow> Inr (utf8_decode decrypted))"
  using assms by (simp add: decryptSecret_def encryptSecret_def Let_def hex_roundtrip)

lemma toy_cipher_inverts: "cipher_inverts toy_crypto"
  by (simp add: cipher_inverts_def toy_crypto_def)

text \<open>
  Claim C6, as amended. Given a cipher whose decryption inverts its encryption, and a
  16-byte salt: \<open>decryptSecret (encryptSecret p pw) pw = p\<close> for every plaintext and
  passphrase. With another passphrase \<open>pw'\<close> the outcome is that of the cipher under
  the key derived from \<open>pw'\<close>: a failure is signalled exactly when the cipher rejects,
  and \<open>p\<close> is returned whenever \<open>pw'\<close> derives the key of \<open>pw\<close>, as \<open>pw\<close> followed by a NUL
  character does for every \<open>pw\<close> shorter than 64 bytes (HMAC pads its key with zero
  bytes).
\<close>

theorem vault_roundtrip:
  "cipher_inverts cr \<and> length salt = 16 \<longrightarrow>
     decryptSecret cr (encryptSecret cr salt iv p pw) pw = Inr p
     \<and> (deriveKey cr pw' salt = deriveKey cr pw salt \<longrightarrow>
          decryptSecret cr (encryptSecret cr salt iv p pw) pw' = Inr p)
     \<and> (length pw < 64 \<longrightarrow>
          decryptSecret cr (encryptSecret cr salt iv p pw) (pw @ [CHR 0x00]) = Inr p)
     \<and> ((\<exists>e. decryptSecret cr (encryptSecret cr salt iv p pw) pw' = Inl e) =
          (aes_256_cbc_decrypt cr (deriveKey cr pw' salt) iv
             (aes_256_cbc_encrypt cr (deriveKey cr pw salt) iv (utf8_encode p)) = None))"
proof (intro impI)
  assume h: "cipher_inverts cr \<and> length salt = 16"
  then have inv: "\<And>k m. aes_256_cbc_decrypt cr k iv (aes_256_cbc_encrypt cr k iv m) = Some m"
    by (simp add: cipher_inverts_def)
  have salt: "length salt = 16" using h by simp
  have same: "decryptSecret cr (encryptSecret cr salt iv p pw) q = Inr p"
    if "deriveKey cr q salt = deriveKey cr pw salt" for q
    by (simp add: decrypt_encrypted[OF salt] that inv utf8_roundtrip)
  show "decryptSecret cr (encryptSecret cr salt iv p pw) pw = Inr p
     \<and> (deriveKey cr pw' salt = deriveKey cr pw salt \<longrightarrow>
          decryptSecret cr (encryptSecret cr salt iv p pw) pw' = Inr p)
     \<and> (length pw < 64 \<longrightarrow>
          decryptSecret cr (encryptSecret cr salt iv p pw) (pw @ [CHR 0x00]) = Inr p)
     \<and> ((\<exists>e. decryptSecret cr (encryptSecret cr salt iv p pw) pw' = Inl e) =
          (aes_256_cbc_decrypt cr (deriveKey cr pw' salt) iv
             (aes_256_cbc_encrypt cr (deriveKey cr pw salt) iv (utf8_encode p)) = None))"
  proof (intro conjI impI)
    show "decryptSecret cr (encryptSecret cr salt iv p pw) pw = Inr p"
      by (rule same) simp
  next
    assume "deriveKey cr pw' salt = deriveKey cr pw salt"
    then show "decryptSecret cr (encryptSecret cr salt iv p pw) pw' = Inr p"
      by (rule same)
  next
    assume "length pw < 64"
    then show "decryptSecret cr (encryptSecret cr salt iv p pw) (pw @ [CHR 0x00]) = Inr p"
      by (intro same deriveKey_nul)
  next
    show "(\<exists>e. decryptSecret cr (encryptSecret cr salt iv p pw) pw' = Inl e) =
          (aes_256_cbc_decrypt cr (deriveKey cr pw' salt) iv
             (aes_256_cbc_encrypt cr (deriveKey cr pw salt) iv (utf8_encode p)) = None)"
      by (simp add: decrypt_encrypted[OF salt] split: option.splits)
  qed
qed

text \<open>An instance, with the stand-in primitives: the secret \<^verbatim>\<open>nsec1secret\<close> under the
  passphrase \<^verbatim>\<open>horse\<close>.\<close>

theorem vault_roundtrip_witness:
  "cipher_inverts toy_crypto \<and> length sample_salt = 16 \<and> length ''horse'' < 64 \<and>
   decryptSecret toy_crypto
     (encryptSecret toy_crypto sample_salt sample_iv ''nsec1secret'' ''horse'') ''horse'' =
     Inr ''nsec1secret'' \<and>
   decryptSecret toy_crypto
     (encryptSecret toy_crypto sample_salt sample_iv ''nsec1secret'' ''horse'')
     (''horse'' @ [CHR 0x00]) = Inr ''nsec1secret''"
  using vault_roundtrip [of toy_crypto sample_salt sample_iv "''nsec1secret''" "''horse''"
      "''horse''"] toy_cipher_inverts
  by (simp add: sample_salt_def)

text \<open>
  Claim C6 as stated fails: the passphrase \<^verbatim>\<open>horse\<close> followed by a NUL character differs
  from \<^verbatim>\<open>horse\<close> and decrypts what \<^verbatim>\<open>horse\<close> encrypted. The stand-in primitives only make
  the statement closed: by \<open>deriveKey_nul\<close> the two passphrases derive the same key
  under every hash function, so the same holds for SHA-256 and AES.
\<close>

theorem vault_wrong_passphrase_counterexample:
  "''horse'' @ [CHR 0x00] \<noteq> ''horse'' \<and>
   decryptSecret toy_crypto
     (encryptSecret toy_crypto sample_salt sample_iv ''nsec1secret'' ''horse'')
     (''horse'' @ [CHR 0x00]) = Inr ''nsec1secret''"
proof -
  have "deriveKey toy_crypto (''horse'' @ [CHR 0x00]) sample_salt =
        deriveKey toy_crypto ''horse'' sample_salt"
    by (rule deriveKey_nul) simp
  moreover have "length sample_salt = 16" by (simp add: sample_salt_def)
  ultimately show ?thesis
    using toy_cipher_inverts
    by (simp add: decrypt_encrypted cipher_inverts_def utf8_roundtrip)
qed

section \<open>The heartbeat\<close>

lemma advance_exited: "hb_exit hb \<noteq> None \<Longrightarrow> advance t hb = hb"
  by (simp add: advance.simps)

lemma advance_timeout:
  "hb_exit hb = None \<Longrightarrow> hb_timeout hb = Some d \<Longrightarrow>
   hb_exit (advance t hb) = (if d \<le> t then Some (d, 1) else None) \<and>
   hb_timeout (advance t hb) = Some d"
proof (induction t hb rule: advance.induct)
  case (1 t hb)
  show ?case
  proof (cases "timeout_due t hb")
    case True
    then show ?thesis using 1(2,3)
      by (subst (1 2) advance.simps) (auto simp: timeout_due_def)
  next
    case due: False
    show ?thesis
    proof (cases "hb_interval hb \<le> t")
      case True
      let ?hb = "hb\<lparr> hb_published := hb_published hb @ [hb_interval hb],
                     hb_interval := hb_interval hb + 20000 \<rparr>"
      have "hb_exit (advance t ?hb) = (if d \<le> t then Some (d, 1) else None) \<and>
            hb_timeout (advance t ?hb) = Some d"
        using 1(1)[of ] due True 1(2,3) by simp
      moreover have "advance t hb = advance t ?hb"
        using due True 1(2) by (subst advance.simps) simp
      ultimately show ?thesis by simp
    next
      case False
      then have "advance t hb = hb" using due 1(2) by (subst advance.simps) simp
      moreover have "\<not> d \<le> t" using due False 1(3) by (auto simp: timeout_due_def)
      ultimately show ?thesis using 1(2,3) by simp
    qed
  qed
qed

lemma advance_every_20s:
  "every_20s now hb \<Longrightarrow> every_20s now (advance t hb)"
proof (induction t hb rule: advance.induct)
  case (1 t hb)
  show ?case
  proof (cases "hb_exit hb = None \<and> \<not> timeout_due t hb \<and> hb_interval hb \<le> t")
    case True
    let ?hb = "hb\<lparr> hb_published := hb_published hb @ [hb_interval hb],
                   hb_interval := hb_interval hb + 20000 \<rparr>"
    have "every_20s now ?hb" using 1(2) by (auto simp: every_20s_def)
    then have "every_20s now (advance t ?hb)" using 1(1) True by simp
    moreover have "advance t hb = advance t ?hb" using True by (subst advance.simps) simp
    ultimately show ?thesis by simp
  next
    case False
    then have "every_20s now (advance t hb) = every_20s now hb"
      by (subst advance.simps) (auto simp: every_20s_def)
    then show ?thesis using 1(2) by simp
  qed
qed

lemma advance_caught_up:
  "hb_exit hb = None \<Longrightarrow>
   (case hb_exit (advance t hb) of
      None \<Rightarrow> t < hb_interval (advance t hb)
    | Some (T, s) \<Rightarrow> T \<le> hb_interval (advance t hb))"
proof (induction t hb rule: advance.induct)
  case (1 t hb)
  show ?case
  proof (cases "timeout_due t hb")
    case True
    then show ?thesis using 1(2)
      by (subst (1 2) advance.simps) (auto simp: timeout_due_def split: option.splits)
  next
    case due: False
    show ?thesis
    proof (cases "hb_interval hb \<le> t")
      case True
      let ?hb = "hb\<lparr> hb_published := hb_published hb @ [hb_interval hb],
                     hb_interval := hb_interval hb + 20000 \<rparr>"
      have eq: "advance t hb = advance t ?hb"
        using due True 1(2) by (subst advance.simps) simp
      have "case hb_exit (advance t ?hb) of
              None \<Rightarrow> t < hb_interval (advance t ?hb)
            | Some (T, s) \<Rightarrow> T \<le> hb_interval (advance t ?hb)"
        using 1(1) due True 1(2) by simp
      then show ?thesis unfolding eq .
    next
      case False
      then have "advance t hb = hb" using due 1(2) by (subst advance.simps) simp
      then show ?thesis using False 1(2) by simp
    qed
  qed
qed

lemma receive_exited: "hb_exit hb \<noteq> None \<Longrightarrow> receive t hb = hb"
  by (simp add: receive_def advance_exited)

lemma fold_receive_exited: "hb_exit hb \<noteq> None \<Longrightarrow> fold receive ts hb = hb"
  by (induction ts) (simp_all add: receive_exited)

lemma receive_timeout:
  assumes "hb_exit hb = None" "hb_timeout hb = Some d"
  shows "d \<le> t \<Longrightarrow> hb_exit (receive t hb) = Some (d, 1)"
    and "\<not> d \<le> t \<Longrightarrow> hb_exit (receive t hb) = None \<and> hb_timeout (receive t hb) = Some (t + 50000)"
  using advance_timeout[OF assms, of t] by (simp_all add: receive_def schedule_def Let_def)

lemma exit_of_run:
  "hb_exit hb = None \<Longrightarrow> hb_timeout hb = Some d \<Longrightarrow>
   hb_exit (advance h (fold receive ts hb)) = map_option (\<lambda>T. (T, 1)) (exit_time d ts h)"
proof (induction ts arbitrary: hb d)
  case Nil
  then show ?case using advance_timeout[of hb d h] by simp
next
  case (Cons t ts)
  show ?case
  proof (cases "d \<le> t")
    case True
    then have ex: "hb_exit (receive t hb) = Some (d, 1)"
      using receive_timeout(1)[OF Cons(2,3)] by simp
    then have "fold receive ts (receive t hb) = receive t hb"
      by (intro fold_receive_exited) simp
    moreover have "advance h (receive t hb) = receive t hb"
      using ex by (intro advance_exited) simp
    ultimately show ?thesis using True ex by simp
  next
    case False
    then have "hb_exit (receive t hb) = None \<and> hb_timeout (receive t hb) = Some (t + 50000)"
      using receive_timeout(2)[OF Cons(2,3)] by simp
    then show ?thesis using Cons(1)[of "receive t hb" "t + 50000"] False by simp
  qed
qed

lemma exit_time_sound:
  "sorted ts \<Longrightarrow> \<forall>a \<in> set ts. base \<le> a \<Longrightarrow> exit_time (base + 50000) ts h = Some T \<Longrightarrow>
   \<exists>b \<in> insert base (set ts). T = b + 50000 \<and> (\<forall>a \<in> set ts. \<not> (b < a \<and> a < T))"
proof (induction ts arbitrary: base)
  case Nil
  then show ?case by (auto split: if_splits)
next
  case (Cons t ts)
  show ?case
  proof (cases "base + 50000 \<le> t")
    case True
    then have "T = base + 50000" using Cons(4) by simp
    moreover have "\<forall>a \<in> set (t # ts). \<not> a < T"
      using Cons(2) True \<open>T = base + 50000\<close> by auto
    ultimately show ?thesis by auto
  next
    case False
    then have "exit_time (t + 50000) ts h = Some T" using Cons(4) by simp
    moreover have "sorted ts" "\<forall>a \<in> set ts. t \<le> a" using Cons(2) by auto
    ultimately obtain b where b: "b \<in> insert t (set ts)" "T = b + 50000"
        "\<forall>a \<in> set ts. \<not> (b < a \<and> a < T)"
      using Cons(1)[of t] by blast
    have "t \<le> b" using b(1) \<open>\<forall>a \<in> set ts. t \<le> a\<close> by auto
    then have "\<forall>a \<in> set (t # ts). \<not> (b < a \<and> a < T)" using b(3) by auto
    then show ?thesis using b(1,2) by auto
  qed
qed

lemma exit_time_complete:
  "sorted ts \<Longrightarrow> \<forall>a \<in> set ts. base \<le> a \<Longrightarrow> b \<in> insert base (set ts) \<Longrightarrow>
   b + 50000 \<le> h \<Longrightarrow> \<forall>a \<in> set ts. \<not> (b < a \<and> a < b + 50000) \<Longrightarrow>
   \<exists>T. exit_time (base + 50000) ts h = Some T \<and> T \<le> b + 50000"
proof (induction ts arbitrary: base)
  case Nil
  then show ?case by simp
next
  case (Cons t ts)
  have ge: "base \<le> b" using Cons(3,4) by auto
  show ?case
  proof (cases "base + 50000 \<le> t")
    case True
    then show ?thesis using ge by simp
  next
    case False
    have st: "sorted ts" "\<forall>a \<in> set ts. t \<le> a" using Cons(2) by auto
    have quiet: "\<forall>a \<in> set ts. \<not> (b < a \<and> a < b + 50000)" using Cons(6) by simp
    have mem: "b \<in> insert t (set ts)"
    proof (cases "b = base")
      case True
      then have "\<not> (base < t \<and> t < base + 50000)" using Cons(6) by simp
      then have "t = base" using False Cons(3) by auto
      then show ?thesis using True by simp
    next
      case False
      then show ?thesis using Cons(4) by auto
    qed
    obtain T where "exit_time (t + 50000) ts h = Some T" "T \<le> b + 50000"
      using Cons(1)[OF st mem Cons(5) quiet] by blast
    then show ?thesis using False by simp
  qed
qed

lemma receive_every_20s: "every_20s now hb \<Longrightarrow> every_20s now (receive t hb)"
  using advance_every_20s[of now hb t]
  by (auto simp: receive_def Let_def schedule_def every_20s_def)

lemma fold_receive_every_20s: "every_20s now hb \<Longrightarrow> every_20s now (fold receive ts hb)"
  by (induction ts arbitrary: hb) (simp_all add: receive_every_20s)

lemma start_every_20s: "every_20s now (startHeartbeat now)"
  by (simp add: every_20s_def startHeartbeat_def schedule_def)

lemma fold_receive_caught_up:
  "hb_exit hb = None \<or> (\<exists>T s. hb_exit hb = Some (T, s) \<and> T \<le> hb_interval hb) \<Longrightarrow>
   hb_exit (fold receive ts hb) = None \<or>
   (\<exists>T s. hb_exit (fold receive ts hb) = Some (T, s) \<and> T \<le> hb_interval (fold receive ts hb))"
proof (induction ts arbitrary: hb)
  case Nil
  then show ?case by simp
next
  case (Cons t ts)
  have "hb_exit (receive t hb) = None \<or>
        (\<exists>T s. hb_exit (receive t hb) = Some (T, s) \<and> T \<le> hb_interval (receive t hb))"
  proof (cases "hb_exit hb")
    case None
    then show ?thesis using advance_caught_up[OF None, of t]
      by (auto simp: receive_def Let_def schedule_def split: option.splits)
  next
    case (Some e)
    then show ?thesis using Cons(2) by (simp add: receive_exited)
  qed
  then show ?case using Cons(1)[of "receive t hb"] by simp
qed

lemma run_caught_up:
  "case hb_exit (run_heartbeat now arrivals horizon) of
     None \<Rightarrow> horizon < hb_interval (run_heartbeat now arrivals horizon)
   | Some (T, s) \<Rightarrow> T \<le> hb_interval (run_heartbeat now arrivals horizon)"
proof -
  let ?hb = "fold receive arrivals (startHeartbeat now)"
  have "hb_exit ?hb = None \<or> (\<exists>T s. hb_exit ?hb = Some (T, s) \<and> T \<le> hb_interval ?hb)"
    by (rule fold_receive_caught_up) (simp add: startHeartbeat_def schedule_def)
  then have "case hb_exit (advance horizon ?hb) of
               None \<Rightarrow> horizon < hb_interval (advance horizon ?hb)
             | Some (T, s) \<Rightarrow> T \<le> hb_interval (advance horizon ?hb)"
  proof
    assume "hb_exit ?hb = None"
    then show ?thesis by (rule advance_caught_up)
  next
    assume "\<exists>T s. hb_exit ?hb = Some (T, s) \<and> T \<le> hb_interval ?hb"
    then show ?thesis by (auto simp: advance_exited)
  qed
  then show ?thesis unfolding run_heartbeat_def .
qed

text \<open>
  Claim C9. Let the heartbeat start at \<open>now\<close>, let self-addressed events be observed
  at the times \<open>arrivals\<close> (ascending, none before the start), and let the timers run up
  to \<open>horizon\<close>. Then a ping is published every 20 s, at \<open>now + 20 s\<close>, \<open>now + 40 s\<close> and
  so on, none being skipped before the horizon or the exit. The process exits only
  with status 1, and only at a time that is 50 s after the start or an observation with
  no observation in between. And whenever 50 s elapse (within the horizon) after the
  start or an observation without any observation, the process has exited with status
  1 by then.
\<close>

theorem heartbeat_watchdog:
  "sorted arrivals \<and> (\<forall>a \<in> set arrivals. now \<le> a) \<longrightarrow>
     every_20s now (run_heartbeat now arrivals horizon)
     \<and> (case hb_exit (run_heartbeat now arrivals horizon) of
          None \<Rightarrow> horizon < hb_interval (run_heartbeat now arrivals horizon)
        | Some (T, s) \<Rightarrow> T \<le> hb_interval (run_heartbeat now arrivals horizon))
     \<and> (\<forall>T s. hb_exit (run_heartbeat now arrivals horizon) = Some (T, s) \<longrightarrow>
          s = 1 \<and> (\<exists>b \<in> insert now (set arrivals).
                     T = b + 50000 \<and> (\<forall>a \<in> set arrivals. \<not> (b < a \<and> a < T))))
     \<and> (\<forall>b \<in> insert now (set arrivals).
          b + 50000 \<le> horizon \<and> (\<forall>a \<in> set arrivals. \<not> (b < a \<and> a < b + 50000)) \<longrightarrow>
          (\<exists>T. hb_exit (run_heartbeat now arrivals horizon) = Some (T, 1) \<and> T \<le> b + 50000))"
proof (intro impI)
  assume h: "sorted arrivals \<and> (\<forall>a \<in> set arrivals. now \<le> a)"
  let ?hb = "run_heartbeat now arrivals horizon"
  have start: "hb_exit (startHeartbeat now) = None"
      "hb_timeout (startHeartbeat now) = Some (now + 50000)"
    by (simp_all add: startHeartbeat_def schedule_def)
  have ex: "hb_exit ?hb = map_option (\<lambda>T. (T, 1)) (exit_time (now + 50000) arrivals horizon)"
    unfolding run_heartbeat_def by (rule exit_of_run[OF start])
  have A: "every_20s now ?hb"
    unfolding run_heartbeat_def
    by (intro advance_every_20s fold_receive_every_20s start_every_20s)
  have B: "case hb_exit ?hb of
             None \<Rightarrow> horizon < hb_interval ?hb
           | Some (T, s) \<Rightarrow> T \<le> hb_interval ?hb"
    by (rule run_caught_up)
  have C: "\<forall>T s. hb_exit ?hb = Some (T, s) \<longrightarrow>
          s = 1 \<and> (\<exists>b \<in> insert now (set arrivals).
                     T = b + 50000 \<and> (\<forall>a \<in> set arrivals. \<not> (b < a \<and> a < T)))"
  proof (intro allI impI)
    fix T s assume "hb_exit ?hb = Some (T, s)"
    then have "s = 1" "exit_time (now + 50000) arrivals horizon = Some T"
      using ex by auto
    then show "s = 1 \<and> (\<exists>b \<in> insert now (set arrivals).
                     T = b + 50000 \<and> (\<forall>a \<in> set arrivals. \<not> (b < a \<and> a < T)))"
      using exit_time_sound[of arrivals now horizon T] h by simp
  qed
  have D: "\<forall>b \<in> insert now (set arrivals).
          b + 50000 \<le> horizon \<and> (\<forall>a \<in> set arrivals. \<not> (b < a \<and> a < b + 50000)) \<longrightarrow>
          (\<exists>T. hb_exit ?hb = Some (T, 1) \<and> T \<le> b + 50000)"
  proof (intro ballI impI)
    fix b assume b: "b \<in> insert now (set arrivals)"
      "b + 50000 \<le> horizon \<and> (\<forall>a \<in> set arrivals. \<not> (b < a \<and> a < b + 50000))"
    then obtain T where "exit_time (now + 50000) arrivals horizon = Some T" "T \<le> b + 50000"
      using exit_time_complete[of arrivals now b horizon] h by blast
    then show "\<exists>T. hb_exit ?hb = Some (T, 1) \<and> T \<le> b + 50000"
      using ex by simp
  qed
  show "every_20s now ?hb
     \<and> (case hb_exit ?hb of
          None \<Rightarrow> horizon < hb_interval ?hb
        | Some (T, s) \<Rightarrow> T \<le> hb_interval ?hb)
     \<and> (\<forall>T s. hb_exit ?hb = Some (T, s) \<longrightarrow>
          s = 1 \<and> (\<exists>b \<in> insert now (set arrivals).
                     T = b + 50000 \<and> (\<forall>a \<in> set arrivals. \<not> (b < a \<and> a < T))))
     \<and> (\<forall>b \<in> insert now (set arrivals).
          b + 50000 \<le> horizon \<and> (\<forall>a \<in> set arrivals. \<not> (b < a \<and> a < b + 50000)) \<longrightarrow>
          (\<exists>T. hb_exit ?hb = Some (T, 1) \<and> T \<le> b + 50000))"
    using A B C D by (intro conjI)
qed

lemma sample_heartbeat:
  "run_heartbeat 0 [20100, 40100, 60100] 120000 =
     \<lparr> hb_timeout = Some 110100, hb_interval = 120000,
       hb_published = [20000, 40000, 60000, 80000, 100000], hb_exit = Some (110100, 1) \<rparr>"
  by (simp add: run_heartbeat_def startHeartbeat_def schedule_def receive_def advance.simps
        timeout_due_def Let_def)

text \<open>An instance: the channel starts at 0 and sees its own pings come back at 20.1 s,
  40.1 s and 60.1 s, then nothing. Five pings go out, and the process exits with status
  1 at 110.1 s, 50 s after the last observation.\<close>

theorem heartbeat_watchdog_witness:
  "sorted [20100, 40100, 60100 :: int] \<and> (0 :: int) \<le> 20100 \<and>
   every_20s 0 (run_heartbeat 0 [20100, 40100, 60100] 120000) \<and>
   hb_published (run_heartbeat 0 [20100, 40100, 60100] 120000) =
     [20000, 40000, 60000, 80000, 100000] \<and>
   hb_exit (run_heartbeat 0 [20100, 40100, 60100] 120000) = Some (60100 + 50000, 1)"
  using heartbeat_watchdog [of "[20100, 40100, 60100]" 0 120000]
  by (simp add: sample_heartbeat)

end
